theory Spec2Isabelle
  imports
    Complex_Main
    "HOL-Library.AList"
    "HOL-Library.Char_ord"
    "HOL-Library.List_Lexorder"
begin

section \<open>Data model\<close>

text \<open>
  The program is the Streamlit script \<^verbatim>\<open>src/app.py\<close>. It works on one pandas data frame.
  A frame is modelled column by column, as pandas stores it: a row index (the labels of
  the rows, kept by every row selection) and the columns in their order, each a name and
  a typed list of cells. A missing cell (NaN, NaT, None) is \<open>None\<close>. Numbers are exact
  reals: an int64 column is embedded in them, and float rounding is left out. A timestamp
  is its count of nanoseconds since 1970-01-01T00:00, as datetime64[ns] holds it.
\<close>

datatype error = KeyError string | AttributeError | TypeError | ValueError

datatype column =
    NumCol "real option list"
  | StrCol "string option list"
  | TimeCol "int option list"

record dataframe =
  index :: "nat list"
  columns :: "(string \<times> column) list"

text \<open>One cell that is present, of any of the three types.\<close>

datatype cell = Num real | Str string | Time int

text \<open>Python's exceptions: the first error ends the computation.\<close>

definition and_then :: "error + 'a \<Rightarrow> ('a \<Rightarrow> error + 'b) \<Rightarrow> error + 'b" where
  "and_then r k = (case r of Inl err \<Rightarrow> Inl err | Inr v \<Rightarrow> k v)"

text \<open>A list comprehension whose items may raise: the first error, or all the values.\<close>

fun sequence :: "(error + 'a) list \<Rightarrow> error + 'a list" where
  "sequence [] = Inr []"
| "sequence (r # rs) = and_then r (\<lambda>v. and_then (sequence rs) (\<lambda>vs. Inr (v # vs)))"

section \<open>The pandas operations the script calls\<close>

fun col_len :: "column \<Rightarrow> nat" where
  "col_len (NumCol xs) = length xs"
| "col_len (StrCol xs) = length xs"
| "col_len (TimeCol xs) = length xs"

text \<open>\<^verbatim>\<open>len(df)\<close>: the number of row labels.\<close>

definition len :: "dataframe \<Rightarrow> nat" where
  "len df = length (index df)"

text \<open>In a data frame every column has one cell for each row label.\<close>

definition well_formed :: "dataframe \<Rightarrow> bool" where
  "well_formed df = list_all (\<lambda>(n, c). col_len c = len df) (columns df)"

text \<open>\<^verbatim>\<open>name in df.columns\<close>.\<close>

definition has_column :: "dataframe \<Rightarrow> string \<Rightarrow> bool" where
  "has_column df name = (name \<in> set (map fst (columns df)))"

text \<open>\<^verbatim>\<open>df[name]\<close> raises KeyError for a column the frame does not have.\<close>

definition getitem :: "dataframe \<Rightarrow> string \<Rightarrow> error + column" where
  "getitem df name =
     (case map_of (columns df) name of
        None \<Rightarrow> Inl (KeyError name)
      | Some c \<Rightarrow> Inr c)"

text \<open>\<^verbatim>\<open>df[name] = col\<close> replaces the column in place, or appends a new one.\<close>

definition setitem :: "string \<Rightarrow> column \<Rightarrow> dataframe \<Rightarrow> dataframe" where
  "setitem name col df = df\<lparr>columns := AList.update name col (columns df)\<rparr>"

text \<open>\<^verbatim>\<open>df.drop(columns=names, errors='ignore')\<close>.\<close>

definition drop_ignore :: "string list \<Rightarrow> dataframe \<Rightarrow> dataframe" where
  "drop_ignore names df =
     df\<lparr>columns := filter (\<lambda>(n, c). n \<notin> set names) (columns df)\<rparr>"

text \<open>The cells that are not missing, in row order.\<close>

definition present :: "'a option list \<Rightarrow> 'a list" where
  "present xs = map the (filter (\<lambda>x. x \<noteq> None) xs)"

subsection \<open>Selecting rows by a boolean mask\<close>

definition select :: "bool list \<Rightarrow> 'a list \<Rightarrow> 'a list" where
  "select keep xs = map snd (filter fst (zip keep xs))"

fun col_select :: "bool list \<Rightarrow> column \<Rightarrow> column" where
  "col_select keep (NumCol xs) = NumCol (select keep xs)"
| "col_select keep (StrCol xs) = StrCol (select keep xs)"
| "col_select keep (TimeCol xs) = TimeCol (select keep xs)"

text \<open>\<^verbatim>\<open>df[mask]\<close>: the rows whose mask is true, with their labels.\<close>

definition take_rows :: "bool list \<Rightarrow> dataframe \<Rightarrow> dataframe" where
  "take_rows keep df =
     \<lparr>index = select keep (index df),
      columns = map (\<lambda>(n, c). (n, col_select keep c)) (columns df)\<rparr>"

text \<open>The cells of a column, whatever its type.\<close>

fun col_cells :: "column \<Rightarrow> cell option list" where
  "col_cells (NumCol xs) = map (map_option Num) xs"
| "col_cells (StrCol xs) = map (map_option Str) xs"
| "col_cells (TimeCol xs) = map (map_option Time) xs"

text \<open>
  \<^verbatim>\<open>df[c] == v\<close>: a missing cell equals nothing, and a cell of another type than
  \<open>v\<close> is not equal to it.
\<close>

definition eq_mask :: "column \<Rightarrow> cell \<Rightarrow> bool list" where
  "eq_mask c v = map (\<lambda>x. x = Some v) (col_cells c)"

text \<open>\<^verbatim>\<open>df[df[name] == v]\<close>.\<close>

definition filter_eq :: "string \<Rightarrow> cell \<Rightarrow> dataframe \<Rightarrow> error + dataframe" where
  "filter_eq name v df = and_then (getitem df name) (\<lambda>c. Inr (take_rows (eq_mask c v) df))"

subsection \<open>Timestamps\<close>

definition ns_per_day :: int where
  "ns_per_day = 86400 * 10 ^ 9"

text \<open>
  The day of the month of the proleptic Gregorian date that lies \<open>days\<close> days after
  1970-01-01 (eras of 400 years that start on 1 March).
\<close>

definition civil_day :: "int \<Rightarrow> int" where
  "civil_day days =
     (let z = days + 719468;
          doe = z mod 146097;
          yoe = (doe - doe div 1460 + doe div 36524 - doe div 146096) div 365;
          doy = doe - (365 * yoe + yoe div 4 - yoe div 100);
          mp = (5 * doy + 2) div 153
      in doy - (153 * mp + 2) div 5 + 1)"

text \<open>\<^verbatim>\<open>.dt.day\<close>, \<^verbatim>\<open>.dt.hour\<close> and \<^verbatim>\<open>.dt.day_name()\<close> of one timestamp.\<close>

definition dt_day :: "int \<Rightarrow> int" where
  "dt_day t = civil_day (t div ns_per_day)"

definition dt_hour :: "int \<Rightarrow> int" where
  "dt_hour t = (t div (3600 * 10 ^ 9)) mod 24"

definition day_names :: "string list" where
  "day_names = [''Monday'', ''Tuesday'', ''Wednesday'', ''Thursday'', ''Friday'',
     ''Saturday'', ''Sunday'']"

definition dt_day_name :: "int \<Rightarrow> string" where
  "dt_day_name t = day_names ! nat ((t div ns_per_day + 3) mod 7)"

text \<open>\<^verbatim>\<open>.dt.total_seconds()\<close> of a difference of timestamps.\<close>

definition total_seconds :: "int \<Rightarrow> real" where
  "total_seconds delta = real_of_int delta / 10 ^ 9"

text \<open>The \<^verbatim>\<open>.dt\<close> accessor exists on a datetime column only.\<close>

definition dt_values :: "column \<Rightarrow> error + int option list" where
  "dt_values c = (case c of TimeCol ts \<Rightarrow> Inr ts | _ \<Rightarrow> Inl AttributeError)"

text \<open>
  \<^verbatim>\<open>(a - b).dt.total_seconds() / 60\<close>: the difference of two datetime columns
  is a timedelta column; numbers subtract to numbers, which have no \<^verbatim>\<open>.dt\<close>; every
  other pair of types does not subtract.
\<close>

definition minutes_between :: "column \<Rightarrow> column \<Rightarrow> error + column" where
  "minutes_between a b =
     (case (a, b) of
        (TimeCol xs, TimeCol ys) \<Rightarrow>
          Inr (NumCol (map (\<lambda>(x, y).
            case (x, y) of
              (Some s, Some t) \<Rightarrow> Some (total_seconds (s - t) / 60)
            | _ \<Rightarrow> None) (zip xs ys)))
      | (NumCol xs, NumCol ys) \<Rightarrow> Inl AttributeError
      | _ \<Rightarrow> Inl TypeError)"

subsection \<open>Arithmetic and dictionary lookup on a column\<close>

text \<open>\<^verbatim>\<open>((s - 1) // 7) + 1\<close> on a column: numbers only, a missing cell stays missing.\<close>

definition week_of_day :: "real \<Rightarrow> real" where
  "week_of_day d = of_int \<lfloor>(d - 1) / 7\<rfloor> + 1"

definition week_of_month_col :: "column \<Rightarrow> error + column" where
  "week_of_month_col c =
     (case c of
        NumCol xs \<Rightarrow> Inr (NumCol (map (map_option week_of_day) xs))
      | _ \<Rightarrow> Inl TypeError)"

text \<open>
  \<^verbatim>\<open>s.map(d)\<close> for a dictionary with integer keys: a number that equals a key gets
  that key's label; any other cell, and every cell of a column that holds no numbers,
  gets none.
\<close>

definition dict_get :: "(int \<times> string) list \<Rightarrow> real \<Rightarrow> string option" where
  "dict_get d x = map_of (map (\<lambda>(k, s). (real_of_int k, s)) d) x"

definition series_map :: "(int \<times> string) list \<Rightarrow> column \<Rightarrow> column" where
  "series_map d c =
     (case c of
        NumCol xs \<Rightarrow> StrCol (map (\<lambda>x. case x of None \<Rightarrow> None | Some v \<Rightarrow> dict_get d v) xs)
      | _ \<Rightarrow> StrCol (replicate (col_len c) None))"

subsection \<open>Filling missing cells\<close>

text \<open>\<^verbatim>\<open>Series.median()\<close>: of the cells that are present; undefined when there are none.\<close>

definition median :: "real option list \<Rightarrow> real option" where
  "median xs =
     (let vs = sort (present xs); n = length vs in
      if n = 0 then None
      else if odd n then Some (vs ! (n div 2))
      else Some ((vs ! (n div 2 - 1) + vs ! (n div 2)) / 2))"

text \<open>\<^verbatim>\<open>s.fillna(v)\<close>: every missing cell becomes \<open>v\<close> (which may itself be missing).\<close>

definition fillna_value :: "'a option \<Rightarrow> 'a option list \<Rightarrow> 'a option list" where
  "fillna_value v xs = map (\<lambda>x. case x of None \<Rightarrow> v | Some y \<Rightarrow> Some y) xs"

text \<open>
  \<^verbatim>\<open>df.fillna(df.median(numeric_only=True))\<close>: every numeric column is filled with
  its own median; the other columns have no median and stay as they are.
\<close>

fun fillna_median_col :: "column \<Rightarrow> column" where
  "fillna_median_col (NumCol xs) = NumCol (fillna_value (median xs) xs)"
| "fillna_median_col (StrCol xs) = StrCol xs"
| "fillna_median_col (TimeCol xs) = TimeCol xs"

definition fillna_median :: "dataframe \<Rightarrow> dataframe" where
  "fillna_median df =
     df\<lparr>columns := map (\<lambda>(n, c). (n, fillna_median_col c)) (columns df)\<rparr>"

text \<open>
  \<^verbatim>\<open>s.fillna(method='ffill')\<close>: a missing cell takes the last cell before it that is
  present; the missing cells before the first present one stay missing.
\<close>

fun ffill_from :: "'a option \<Rightarrow> 'a option list \<Rightarrow> 'a option list" where
  "ffill_from prev [] = []"
| "ffill_from prev (None # xs) = prev # ffill_from prev xs"
| "ffill_from prev (Some y # xs) = Some y # ffill_from (Some y) xs"

fun ffill_col :: "column \<Rightarrow> column" where
  "ffill_col (NumCol xs) = NumCol (ffill_from None xs)"
| "ffill_col (StrCol xs) = StrCol (ffill_from None xs)"
| "ffill_col (TimeCol xs) = TimeCol (ffill_from None xs)"

definition ffill :: "dataframe \<Rightarrow> dataframe" where
  "ffill df = df\<lparr>columns := map (\<lambda>(n, c). (n, ffill_col c)) (columns df)\<rparr>"

section \<open>\<^verbatim>\<open>load_data\<close>\<close>

definition week_names :: "(int \<times> string) list" where
  "week_names = [(1, ''1st Week''), (2, ''2nd Week''), (3, ''3rd Week''),
     (4, ''4th Week''), (5, ''5th Week'')]"

definition payment_mapping :: "(int \<times> string) list" where
  "payment_mapping = [(1, ''Credit Card''), (2, ''Cash''), (3, ''No Charge'')]"

definition trip_type_mapping :: "(int \<times> string) list" where
  "trip_type_mapping = [(1, ''Street-hail''), (2, ''Dispatch'')]"

text \<open>Line 45: \<^verbatim>\<open>df['trip_duration'] = (dropoff - pickup).dt.total_seconds() / 60\<close>.\<close>

definition add_trip_duration :: "dataframe \<Rightarrow> error + dataframe" where
  "add_trip_duration df =
     and_then (getitem df ''lpep_dropoff_datetime'') (\<lambda>dropoff.
     and_then (getitem df ''lpep_pickup_datetime'') (\<lambda>pickup.
     and_then (minutes_between dropoff pickup) (\<lambda>dur.
     Inr (setitem ''trip_duration'' dur df))))"

text \<open>Lines 46 and 47: the weekday name and the hour of the dropoff.\<close>

definition add_weekday :: "dataframe \<Rightarrow> error + dataframe" where
  "add_weekday df =
     and_then (getitem df ''lpep_dropoff_datetime'') (\<lambda>dropoff.
     and_then (dt_values dropoff) (\<lambda>ts.
     Inr (setitem ''weekday'' (StrCol (map (map_option dt_day_name) ts)) df)))"

definition add_hourofday :: "dataframe \<Rightarrow> error + dataframe" where
  "add_hourofday df =
     and_then (getitem df ''lpep_dropoff_datetime'') (\<lambda>dropoff.
     and_then (dt_values dropoff) (\<lambda>ts.
     Inr (setitem ''hourofday''
       (NumCol (map (map_option (\<lambda>t. real_of_int (dt_hour t))) ts)) df)))"

text \<open>Lines 50 to 58: the day of the month of the pickup, its week and the week's label.\<close>

definition add_week_of_month :: "dataframe \<Rightarrow> error + dataframe" where
  "add_week_of_month df =
     and_then (getitem df ''lpep_pickup_datetime'') (\<lambda>pickup.
     and_then (dt_values pickup) (\<lambda>ts.
     let df1 = setitem ''day_of_month''
                 (NumCol (map (map_option (\<lambda>t. real_of_int (dt_day t))) ts)) df in
     and_then (getitem df1 ''day_of_month'') (\<lambda>dom.
     and_then (week_of_month_col dom) (\<lambda>wom.
     let df2 = setitem ''week_of_month'' wom df1 in
     and_then (getitem df2 ''week_of_month'') (\<lambda>w.
     Inr (setitem ''week_name'' (series_map week_names w) df2))))))"

text \<open>Lines 60 and 61: the medians first, the forward fill second.\<close>

definition fill_missing :: "dataframe \<Rightarrow> dataframe" where
  "fill_missing df = ffill (fillna_median df)"

text \<open>Lines 64 to 77: the names of the payment types and, when the column exists, of the trip types.\<close>

definition add_payment_type_name :: "dataframe \<Rightarrow> error + dataframe" where
  "add_payment_type_name df =
     and_then (getitem df ''payment_type'') (\<lambda>p.
     Inr (setitem ''payment_type_name'' (series_map payment_mapping p) df))"

definition add_trip_type_name :: "dataframe \<Rightarrow> error + dataframe" where
  "add_trip_type_name df =
     (if has_column df ''trip_type'' then
        and_then (getitem df ''trip_type'') (\<lambda>t.
        Inr (setitem ''trip_type_name'' (series_map trip_type_mapping t) df))
      else Inr df)"

text \<open>Lines 44 to 58: the frame as it is when the missing values are filled.\<close>

definition derive_columns :: "dataframe \<Rightarrow> error + dataframe" where
  "derive_columns raw =
     and_then (add_trip_duration (drop_ignore [''ehail_fee'', ''fare_amount''] raw)) (\<lambda>df1.
     and_then (add_weekday df1) (\<lambda>df2.
     and_then (add_hourofday df2) (\<lambda>df3.
     add_week_of_month df3)))"

text \<open>
  \<^verbatim>\<open>load_data\<close>, from the frame that \<^verbatim>\<open>pd.read_parquet\<close> returned.
\<close>

definition load_data :: "dataframe \<Rightarrow> error + dataframe" where
  "load_data raw =
     and_then (derive_columns raw) (\<lambda>df4.
     and_then (add_payment_type_name (fill_missing df4)) (\<lambda>df5.
     add_trip_type_name df5))"

section \<open>Filters of the main view\<close>

text \<open>What the user chose in the sidebar (lines 86 to 133).\<close>

record selection =
  selected_week :: string
  selected_weekday :: string
  selected_payment :: string
  selected_passenger :: real
  selected_trip_type :: string
  selected_hour :: real

text \<open>
  Lines 136 to 150. The trip type is filtered when the loaded frame \<open>df\<close> has the
  column \<^verbatim>\<open>trip_type_name\<close>.
\<close>

definition filtered_df :: "selection \<Rightarrow> dataframe \<Rightarrow> error + dataframe" where
  "filtered_df sel df =
     and_then (if selected_week sel \<noteq> ''All Weeks''
           then filter_eq ''week_name'' (Str (selected_week sel)) df
           else Inr df) (\<lambda>f1.
     and_then (filter_eq ''weekday'' (Str (selected_weekday sel)) f1) (\<lambda>f2.
     and_then (filter_eq ''payment_type_name'' (Str (selected_payment sel)) f2) (\<lambda>f3.
     and_then (filter_eq ''passenger_count'' (Num (selected_passenger sel)) f3) (\<lambda>f4.
     and_then (if has_column df ''trip_type_name''
           then filter_eq ''trip_type_name'' (Str (selected_trip_type sel)) f4
           else Inr f4) (\<lambda>f5.
     filter_eq ''hourofday'' (Num (selected_hour sel)) f5)))))"

section \<open>Key metrics\<close>

text \<open>A Python float: a number, NaN or infinity.\<close>

datatype pyfloat = Finite real | NaN | Infinity

text \<open>\<^verbatim>\<open>Series.mean()\<close> skips the missing cells; with no cell left it is NaN.\<close>

definition mean :: "real option list \<Rightarrow> pyfloat" where
  "mean xs =
     (let vs = present xs in
      if vs = [] then NaN else Finite (sum_list vs / real (length vs)))"

text \<open>The script takes the mean of numeric columns; another column has no mean here.\<close>

definition col_mean :: "column \<Rightarrow> error + pyfloat" where
  "col_mean c = (case c of NumCol xs \<Rightarrow> Inr (mean xs) | _ \<Rightarrow> Inl TypeError)"

text \<open>The decimal digits of a natural number.\<close>

fun digits :: "nat \<Rightarrow> string" where
  "digits n =
     (if n < 10 then [''0123456789'' ! n]
      else digits (n div 10) @ [''0123456789'' ! (n mod 10)])"

definition round_half_even :: "real \<Rightarrow> int" where
  "round_half_even x =
     (let f = \<lfloor>x\<rfloor>; r = x - of_int f in
      if r < 1 / 2 then f
      else if 1 / 2 < r then f + 1
      else if even f then f else f + 1)"

text \<open>\<^verbatim>\<open>f"{x:.kf}"\<close> for \<open>k > 0\<close>: \<open>k\<close> decimals, ties to even; NaN prints as \<^verbatim>\<open>nan\<close>.\<close>

definition format_fixed :: "nat \<Rightarrow> real \<Rightarrow> string" where
  "format_fixed k x =
     (let n = nat (round_half_even (\<bar>x\<bar> * 10 ^ k));
          frac = digits (n mod 10 ^ k)
      in (if x < 0 then ''-'' else []) @ digits (n div 10 ^ k) @ ''.''
         @ replicate (k - length frac) (CHR ''0'') @ frac)"

definition format_float :: "nat \<Rightarrow> pyfloat \<Rightarrow> string" where
  "format_float k v =
     (case v of Finite x \<Rightarrow> format_fixed k x | NaN \<Rightarrow> ''nan'' | Infinity \<Rightarrow> ''inf'')"

text \<open>
  Lines 157 to 161: the four metrics, in their order: the number of trips and the three
  texts shown for the means.
\<close>

definition key_metrics :: "dataframe \<Rightarrow> error + nat \<times> string \<times> string \<times> string" where
  "key_metrics fdf =
     and_then (getitem fdf ''trip_distance'') (\<lambda>a. and_then (col_mean a) (\<lambda>dist.
     and_then (getitem fdf ''trip_duration'') (\<lambda>b. and_then (col_mean b) (\<lambda>dur.
     and_then (getitem fdf ''total_amount'') (\<lambda>c. and_then (col_mean c) (\<lambda>amount.
     Inr (len fdf,
          format_float 2 dist @ '' miles'',
          format_float 2 dur @ '' mins'',
          ''$'' @ format_float 2 amount)))))))"

section \<open>Counts per category\<close>

text \<open>The distinct values of the cells that are present, ascending.\<close>

definition uniq_sorted :: "'a::linorder option list \<Rightarrow> 'a list" where
  "uniq_sorted xs = sort (remdups (present xs))"

fun col_keys :: "column \<Rightarrow> cell list" where
  "col_keys (NumCol xs) = map Num (uniq_sorted xs)"
| "col_keys (StrCol xs) = map Str (uniq_sorted xs)"
| "col_keys (TimeCol xs) = map Time (uniq_sorted xs)"

text \<open>
  \<^verbatim>\<open>s.value_counts()\<close>: one entry for each value that occurs, with the number of its
  rows, the largest count first; a missing cell is not counted.
\<close>

definition value_counts :: "column \<Rightarrow> (cell \<times> nat) list" where
  "value_counts c =
     sort_key (\<lambda>(k, n). - int n)
       (map (\<lambda>k. (k, count_list (col_cells c) (Some k))) (col_keys c))"

text \<open>
  \<^verbatim>\<open>counts.reindex(labels)\<close>: the labels in the order given; a label that
  \<^verbatim>\<open>counts\<close> does not have gets a missing value (no \<^verbatim>\<open>fill_value\<close> is passed).
\<close>

definition reindex :: "cell list \<Rightarrow> (cell \<times> nat) list \<Rightarrow> (cell \<times> real option) list" where
  "reindex labels counts = map (\<lambda>l. (l, map_option real (map_of counts l))) labels"

text \<open>Line 178.\<close>

definition weekday_counts :: "dataframe \<Rightarrow> error + (cell \<times> real option) list" where
  "weekday_counts fdf =
     and_then (getitem fdf ''weekday'') (\<lambda>c.
     Inr (reindex (map Str day_names) (value_counts c)))"

section \<open>The sample for the scatter plot\<close>

text \<open>
  \<^verbatim>\<open>df.sample(n)\<close> draws \<open>n\<close> rows without replacement, and raises ValueError when
  \<open>n\<close> is larger than the frame. The random generator is the stream \<open>rnd\<close>: each draw
  takes one of the positions that are left.
\<close>

fun choice :: "(nat \<Rightarrow> nat) \<Rightarrow> nat \<Rightarrow> nat list \<Rightarrow> nat list" where
  "choice rnd 0 pool = []"
| "choice rnd (Suc k) pool =
     (let j = rnd k mod length pool in
      pool ! j # choice rnd k (take j pool @ drop (Suc j) pool))"

fun col_at :: "nat list \<Rightarrow> column \<Rightarrow> column" where
  "col_at ps (NumCol xs) = NumCol (map (\<lambda>p. xs ! p) ps)"
| "col_at ps (StrCol xs) = StrCol (map (\<lambda>p. xs ! p) ps)"
| "col_at ps (TimeCol xs) = TimeCol (map (\<lambda>p. xs ! p) ps)"

definition rows_at :: "nat list \<Rightarrow> dataframe \<Rightarrow> dataframe" where
  "rows_at ps df =
     \<lparr>index = map (\<lambda>p. index df ! p) ps,
      columns = map (\<lambda>(n, c). (n, col_at ps c)) (columns df)\<rparr>"

definition sample :: "(nat \<Rightarrow> nat) \<Rightarrow> nat \<Rightarrow> dataframe \<Rightarrow> error + dataframe" where
  "sample rnd n df =
     (if len df < n then Inl ValueError
      else Inr (rows_at (choice rnd n [0..<len df]) df))"

text \<open>Line 202.\<close>

definition sample_df :: "(nat \<Rightarrow> nat) \<Rightarrow> dataframe \<Rightarrow> error + dataframe" where
  "sample_df rnd fdf = sample rnd (min 1000 (len fdf)) fdf"

section \<open>Statistical tests\<close>

text \<open>What the user chose for the tests (lines 302 to 317); \<^verbatim>\<open>All\<close> is no filter.\<close>

record test_selection =
  test_weekday :: string
  test_payment :: string
  test_week :: string

text \<open>Lines 320 to 326.\<close>

definition test_df :: "test_selection \<Rightarrow> dataframe \<Rightarrow> error + dataframe" where
  "test_df sel df =
     and_then (if test_weekday sel \<noteq> ''All''
           then filter_eq ''weekday'' (Str (test_weekday sel)) df
           else Inr df) (\<lambda>t1.
     and_then (if test_payment sel \<noteq> ''All''
           then filter_eq ''payment_type_name'' (Str (test_payment sel)) t1
           else Inr t1) (\<lambda>t2.
     if test_week sel \<noteq> ''All''
     then filter_eq ''week_name'' (Str (test_week sel)) t2
     else Inr t2))"

text \<open>
  What a test shows: a markdown block (its lines), a warning, or a table of counts.
\<close>

datatype shown = Markdown "string list" | Warning string | Table "nat list list"

subsection \<open>Groups\<close>

text \<open>
  \<^verbatim>\<open>df.groupby(name)\<close>: one group for each value that occurs in the column, in
  ascending order of the values, holding the rows with that value; rows whose key is
  missing are in no group.
\<close>

definition groupby :: "string \<Rightarrow> dataframe \<Rightarrow> error + dataframe list" where
  "groupby name df =
     and_then (getitem df name) (\<lambda>c.
     Inr (map (\<lambda>k. take_rows (eq_mask c k) df) (col_keys c)))"

text \<open>\<^verbatim>\<open>[g[val] for _, g in df.groupby(name)]\<close>.\<close>

definition grouped_column :: "string \<Rightarrow> string \<Rightarrow> dataframe \<Rightarrow> error + column list" where
  "grouped_column name val df =
     and_then (groupby name df) (\<lambda>gs. sequence (map (\<lambda>g. getitem g val) gs))"

subsection \<open>One-way ANOVA\<close>

text \<open>\<^verbatim>\<open>len(groups) >= 2 and all(len(group) > 0 for group in groups)\<close>.\<close>

definition anova_guard :: "column list \<Rightarrow> bool" where
  "anova_guard gs = (2 \<le> length gs \<and> list_all (\<lambda>g. 0 < col_len g) gs)"

text \<open>
  \<^verbatim>\<open>scipy.stats.f_oneway\<close> is a library function: \<open>fo\<close> stands for what it computes
  (the F statistic and the p-value). It raises TypeError when given fewer than two samples.
\<close>

definition f_oneway ::
  "(column list \<Rightarrow> pyfloat \<times> pyfloat) \<Rightarrow> column list \<Rightarrow> error + pyfloat \<times> pyfloat" where
  "f_oneway fo gs = (if length gs < 2 then Inl TypeError else Inr (fo gs))"

text \<open>\<^verbatim>\<open>p < 0.05\<close>: false for NaN.\<close>

definition significant :: "pyfloat \<Rightarrow> bool" where
  "significant p = (case p of Finite x \<Rightarrow> x < 5 / 100 | NaN \<Rightarrow> False | Infinity \<Rightarrow> False)"

definition anova_lines :: "string \<Rightarrow> string \<Rightarrow> pyfloat \<Rightarrow> pyfloat \<Rightarrow> string list" where
  "anova_lines title what f p =
     [''**'' @ title @ ''**'',
      ''- F-statistic: '' @ format_float 2 f,
      ''- p-value: '' @ format_float 4 p,
      ''- '' @ (if significant p then ''Significant difference''
                else ''No significant difference'') @ '' between '' @ what]"

text \<open>Lines 334 to 346.\<close>

definition anova_trip_type ::
  "(column list \<Rightarrow> pyfloat \<times> pyfloat) \<Rightarrow> dataframe \<Rightarrow> error + shown list" where
  "anova_trip_type fo tdf =
     (if has_column tdf ''trip_type_name'' then
        and_then (grouped_column ''trip_type_name'' ''total_amount'' tdf) (\<lambda>trip_type_groups.
        if anova_guard trip_type_groups then
          and_then (f_oneway fo trip_type_groups) (\<lambda>(f_stat, p_value).
          Inr [Markdown (anova_lines ''Total Amount by Trip Type'' ''trip types''
                 f_stat p_value)])
        else Inr [Warning
          ''Cannot perform ANOVA test on trip types - need at least 2 groups with data''])
      else Inr [])"

text \<open>Lines 349 to 360.\<close>

definition anova_weekday ::
  "(column list \<Rightarrow> pyfloat \<times> pyfloat) \<Rightarrow> dataframe \<Rightarrow> error + shown list" where
  "anova_weekday fo tdf =
     and_then (grouped_column ''weekday'' ''total_amount'' tdf) (\<lambda>weekday_groups.
     if anova_guard weekday_groups then
       and_then (f_oneway fo weekday_groups) (\<lambda>(f_stat, p_value).
       Inr [Markdown (anova_lines ''Total Amount by Weekday'' ''weekdays'' f_stat p_value)])
     else Inr [Warning
       (''Cannot perform ANOVA test on weekdays - need at least 2 weekdays with data (found ''
        @ digits (length weekday_groups) @ '')'')])"

text \<open>Lines 363 to 374.\<close>

definition anova_week ::
  "(column list \<Rightarrow> pyfloat \<times> pyfloat) \<Rightarrow> dataframe \<Rightarrow> error + shown list" where
  "anova_week fo tdf =
     and_then (grouped_column ''week_name'' ''total_amount'' tdf) (\<lambda>week_groups.
     if anova_guard week_groups then
       and_then (f_oneway fo week_groups) (\<lambda>(f_stat, p_value).
       Inr [Markdown (anova_lines ''Total Amount by Week of Month''
              ''weeks of the month'' f_stat p_value)])
     else Inr [Warning
       (''Cannot perform ANOVA test on weeks - need at least 2 weeks with data (found ''
        @ digits (length week_groups) @ '')'')])"

subsection \<open>Chi-square test of independence\<close>

text \<open>
  \<^verbatim>\<open>pd.crosstab(a, b)\<close>: the rows where both cells are present are counted; one
  table row for each value of \<open>a\<close> among them and one table column for each value of
  \<open>b\<close> among them, both ascending.
\<close>

definition crosstab :: "column \<Rightarrow> column \<Rightarrow> nat list list" where
  "crosstab a b =
     (let both = map (\<lambda>(x, y). x \<noteq> None \<and> y \<noteq> None) (zip (col_cells a) (col_cells b));
          a' = col_select both a;
          b' = col_select both b;
          pairs = zip (col_cells a') (col_cells b')
      in map (\<lambda>r. map (\<lambda>c. count_list pairs (Some r, Some c)) (col_keys b')) (col_keys a'))"

text \<open>\<^verbatim>\<open>contingency.shape\<close>, and how an f-string prints it.\<close>

definition shape :: "nat list list \<Rightarrow> nat \<times> nat" where
  "shape t = (length t, case t of [] \<Rightarrow> 0 | r # _ \<Rightarrow> length r)"

definition format_shape :: "nat \<times> nat \<Rightarrow> string" where
  "format_shape sh = ''('' @ digits (fst sh) @ '', '' @ digits (snd sh) @ '')''"

text \<open>
  \<^verbatim>\<open>scipy.stats.chi2_contingency\<close>: the expected frequencies come from the marginal
  sums; a table with no cell, or with an expected frequency of zero, raises ValueError;
  with one degree of freedom the observed counts are moved by at most one half towards
  the expected ones (Yates). The survival function of the chi-square distribution is the
  library's: \<open>sf\<close> stands for it.
\<close>

definition expected_freq :: "nat list list \<Rightarrow> real list list" where
  "expected_freq obs =
     (let row_sums = map sum_list obs;
          col_sums = map (\<lambda>j. sum_list (map (\<lambda>r. r ! j) obs)) [0..<snd (shape obs)];
          total = sum_list row_sums
      in map (\<lambda>r. map (\<lambda>c. real r * real c / real total) col_sums) row_sums)"

definition yates :: "real \<Rightarrow> real \<Rightarrow> real" where
  "yates ob ex = ob + min (1 / 2) \<bar>ex - ob\<bar> * sgn (ex - ob)"

definition chi2_contingency ::
  "(real \<Rightarrow> nat \<Rightarrow> real) \<Rightarrow> nat list list \<Rightarrow> error + pyfloat \<times> pyfloat" where
  "chi2_contingency sf obs =
     (let ex = expected_freq obs in
      if concat obs = [] then Inl ValueError
      else if list_ex (\<lambda>e. e = 0) (concat ex) then Inl ValueError
      else
        let dof = (fst (shape obs) - 1) * (snd (shape obs) - 1) in
        if dof = 0 then Inr (Finite 0, Finite 1)
        else
          let stat = sum_list (map (\<lambda>(ob, e).
                       ((if dof = 1 then yates (real ob) e else real ob) - e) ^ 2 / e)
                       (zip (concat obs) (concat ex)))
          in Inr (Finite stat, Finite (sf stat dof)))"

text \<open>Lines 377 to 395.\<close>

definition chi_square_test ::
  "(real \<Rightarrow> nat \<Rightarrow> real) \<Rightarrow> dataframe \<Rightarrow> error + shown list" where
  "chi_square_test sf tdf =
     (if has_column tdf ''trip_type_name'' then
        and_then (getitem tdf ''trip_type_name'') (\<lambda>a.
        and_then (getitem tdf ''payment_type_name'') (\<lambda>b.
        let contingency = crosstab a b in
        if 2 \<le> fst (shape contingency) \<and> 2 \<le> snd (shape contingency) then
          and_then (chi2_contingency sf contingency) (\<lambda>(chi2, p).
          Inr [Markdown
                 [''**Trip Type vs Payment Type**'',
                  ''- Chi-square statistic: '' @ format_float 2 chi2,
                  ''- p-value: '' @ format_float 4 p,
                  ''- '' @ (if significant p then ''Significant association''
                            else ''No significant association'')
                    @ '' between trip type and payment type''],
               Table contingency])
        else Inr [Warning
          (''Cannot perform chi-square test - need at least 2 categories in both dimensions (current shape: ''
           @ format_shape (shape contingency) @ '')'')]))
      else Inr [])"

section \<open>The filling of missing values, as the specification words it\<close>

text \<open>
  The nearest preceding value that is not missing, in row order: the last present cell
  among the rows up to row \<open>i\<close>, if there is one.
\<close>

definition nearest_before :: "'a option list \<Rightarrow> nat \<Rightarrow> 'a option" where
  "nearest_before xs i =
     (case present (take (Suc i) xs) of [] \<Rightarrow> None | v # vs \<Rightarrow> Some (last (v # vs)))"

text \<open>
  First step: in a numeric column every missing cell gets the median of the whole
  column. Second step: in any column a cell that is still missing gets the nearest
  preceding value.
\<close>

fun spec_impute_median :: "column \<Rightarrow> column" where
  "spec_impute_median (NumCol xs) =
     NumCol (map (\<lambda>x. case x of None \<Rightarrow> median xs | Some v \<Rightarrow> Some v) xs)"
| "spec_impute_median (StrCol xs) = StrCol xs"
| "spec_impute_median (TimeCol xs) = TimeCol xs"

fun spec_forward_fill :: "column \<Rightarrow> column" where
  "spec_forward_fill (NumCol xs) = NumCol (map (nearest_before xs) [0..<length xs])"
| "spec_forward_fill (StrCol xs) = StrCol (map (nearest_before xs) [0..<length xs])"
| "spec_forward_fill (TimeCol xs) = TimeCol (map (nearest_before xs) [0..<length xs])"

section \<open>Example data\<close>

text \<open>
  Three trips of August 2023: two that end on Monday the 7th and Monday the 14th, paid by
  card and in cash, and one on Tuesday the 1st whose dropoff is recorded ten minutes before
  its pickup. The passenger count of the second trip is missing.
\<close>

definition example_raw :: dataframe where
  "example_raw =
     \<lparr>index = [0, 1, 2],
      columns =
        [(''lpep_pickup_datetime'',
            TimeCol [Some 1691395200000000000, Some 1692003600000000000,
                     Some 1690933800000000000]),
         (''lpep_dropoff_datetime'',
            TimeCol [Some 1691395800000000000, Some 1692005400000000000,
                     Some 1690933200000000000]),
         (''passenger_count'', NumCol [Some 1, None, Some 3]),
         (''trip_distance'', NumCol [Some 2, Some 4, Some 6]),
         (''payment_type'', NumCol [Some 1, Some 2, Some 1]),
         (''trip_type'', NumCol [Some 1, Some 1, Some 2]),
         (''total_amount'', NumCol [Some 10, Some 20, Some 30])]\<rparr>"

text \<open>
  Three trips of which the second has no pickup timestamp: the first is on the 7th of
  August 2023 and lasts ten minutes, the second ends twenty minutes after the first began,
  the third is on the 8th and lasts ten minutes.
\<close>

definition example_missing_pickup :: dataframe where
  "example_missing_pickup =
     \<lparr>index = [0, 1, 2],
      columns =
        [(''lpep_pickup_datetime'',
            TimeCol [Some 1691395200000000000, None, Some 1691481600000000000]),
         (''lpep_dropoff_datetime'',
            TimeCol [Some 1691395800000000000, Some 1691396400000000000,
                     Some 1691482200000000000]),
         (''passenger_count'', NumCol [Some 1, Some 1, Some 2]),
         (''trip_distance'', NumCol [Some 2, Some 4, Some 6]),
         (''payment_type'', NumCol [Some 1, Some 2, Some 1]),
         (''trip_type'', NumCol [Some 1, Some 1, Some 2]),
         (''total_amount'', NumCol [Some 10, Some 20, Some 30])]\<rparr>"

text \<open>
  Two test subsets: four trips with both trip types and two ways of paying, and two
  street-hail trips paid differently.
\<close>

definition example_two_by_two :: dataframe where
  "example_two_by_two =
     \<lparr>index = [0, 1, 2, 3],
      columns =
        [(''trip_type_name'',
            StrCol [Some ''Street-hail'', Some ''Dispatch'', Some ''Street-hail'',
                    Some ''Dispatch'']),
         (''payment_type_name'',
            StrCol [Some ''Cash'', Some ''Cash'', Some ''Credit Card'',
                    Some ''Credit Card''])]\<rparr>"

definition example_one_trip_type :: dataframe where
  "example_one_trip_type =
     \<lparr>index = [0, 1],
      columns =
        [(''trip_type_name'', StrCol [Some ''Street-hail'', Some ''Street-hail'']),
         (''payment_type_name'', StrCol [Some ''Cash'', Some ''Credit Card''])]\<rparr>"

section \<open>Properties\<close>

subsection \<open>Reading and writing columns\<close>

lemma and_then_Inr_iff: "and_then r k = Inr y \<longleftrightarrow> (\<exists>v. r = Inr v \<and> k v = Inr y)"
  by (cases r) (simp_all add: and_then_def)

lemma getitem_setitem:
  "getitem (setitem n c df) m = (if m = n then Inr c else getitem df m)"
  by (simp add: getitem_def setitem_def update_conv)

lemma getitem_fillna_median:
  "getitem (fillna_median df) m = map_sum id fillna_median_col (getitem df m)"
  by (simp add: getitem_def fillna_median_def map_of_map split: option.splits)

lemma getitem_ffill:
  "getitem (ffill df) m = map_sum id ffill_col (getitem df m)"
  by (simp add: getitem_def ffill_def map_of_map split: option.splits)

lemma getitem_fill_missing:
  "getitem (fill_missing df) m = map_sum id (\<lambda>c. ffill_col (fillna_median_col c)) (getitem df m)"
  by (cases "getitem df m") (simp_all add: fill_missing_def getitem_ffill getitem_fillna_median)

lemma map_of_filter_names:
  "map_of (filter (\<lambda>(n, c). n \<notin> S) xs) m = (if m \<in> S then None else map_of xs m)"
  by (induction xs) auto

lemma getitem_drop_ignore:
  "getitem (drop_ignore ns df) m = (if m \<in> set ns then Inl (KeyError m) else getitem df m)"
  by (simp add: getitem_def drop_ignore_def map_of_filter_names)

lemma add_trip_duration_other:
  "add_trip_duration df = Inr df' \<Longrightarrow> m \<noteq> ''trip_duration'' \<Longrightarrow> getitem df' m = getitem df m"
  by (auto simp: add_trip_duration_def and_then_Inr_iff getitem_setitem)

lemma add_weekday_other:
  "add_weekday df = Inr df' \<Longrightarrow> m \<noteq> ''weekday'' \<Longrightarrow> getitem df' m = getitem df m"
  by (auto simp: add_weekday_def and_then_Inr_iff getitem_setitem)

lemma add_hourofday_other:
  "add_hourofday df = Inr df' \<Longrightarrow> m \<noteq> ''hourofday'' \<Longrightarrow> getitem df' m = getitem df m"
  by (auto simp: add_hourofday_def and_then_Inr_iff getitem_setitem)

lemma add_payment_type_name_other:
  "add_payment_type_name df = Inr df' \<Longrightarrow> m \<noteq> ''payment_type_name'' \<Longrightarrow>
     getitem df' m = getitem df m"
  by (auto simp: add_payment_type_name_def and_then_Inr_iff getitem_setitem)

lemma add_trip_type_name_other:
  "add_trip_type_name df = Inr df' \<Longrightarrow> m \<noteq> ''trip_type_name'' \<Longrightarrow>
     getitem df' m = getitem df m"
  by (auto simp: add_trip_type_name_def and_then_Inr_iff getitem_setitem split: if_splits)


lemma div_bounds:
  fixes a b :: int
  assumes "0 < b"
  shows "b * (a div b) \<le> a" and "a < b * (a div b) + b"
proof -
  have e: "b * (a div b) + a mod b = a" by (rule mult_div_mod_eq)
  have "0 \<le> a mod b" "a mod b < b" using assms by simp_all
  with e show "b * (a div b) \<le> a" "a < b * (a div b) + b" by linarith+
qed

lemma day_from_doy:
  fixes doy :: int
  shows "1 \<le> doy - (153 * ((5 * doy + 2) div 153) + 2) div 5 + 1
       \<and> doy - (153 * ((5 * doy + 2) div 153) + 2) div 5 + 1 \<le> 31"
proof -
  define mp where "mp = (5 * doy + 2) div 153"
  define q where "q = (153 * mp + 2) div 5"
  have a: "153 * mp \<le> 5 * doy + 2" "5 * doy + 2 < 153 * mp + 153"
    unfolding mp_def using div_bounds [of 153 "5 * doy + 2"] by simp_all
  have b: "5 * q \<le> 153 * mp + 2" "153 * mp + 2 < 5 * q + 5"
    unfolding q_def using div_bounds [of 5 "153 * mp + 2"] by simp_all
  from a b have "1 \<le> doy - q + 1 \<and> doy - q + 1 \<le> 31" by linarith
  then show ?thesis by (simp add: q_def mp_def)
qed

lemma dt_day_range: "1 \<le> dt_day t \<and> dt_day t \<le> 31"
  unfolding dt_day_def civil_day_def Let_def by (rule day_from_doy)

lemma week_range:
  fixes d :: int
  assumes "1 \<le> d" "d \<le> 31"
  shows "1 \<le> (d - 1) div 7 + 1 \<and> (d - 1) div 7 + 1 \<le> 5"
  using assms by linarith

lemma week_of_day_int: "week_of_day (real_of_int d) = real_of_int ((d - 1) div 7 + 1)"
proof -
  have "\<lfloor>real_of_int (d - 1) / real_of_int 7\<rfloor> = (d - 1) div 7"
    by (rule floor_divide_of_int_eq)
  then show ?thesis by (simp add: week_of_day_def)
qed

lemma dict_get_of_int: "dict_get d (real_of_int k) = map_of d k"
  unfolding dict_get_def by (induction d) auto

lemma week_name_of_day:
  "dict_get d (week_of_day (real_of_int k)) = map_of d ((k - 1) div 7 + 1)"
  by (simp only: week_of_day_int dict_get_of_int)

lemma week_label:
  fixes w :: int
  assumes "1 \<le> w" "w \<le> 5"
  shows "map_of week_names w =
     Some ([''1st Week'', ''2nd Week'', ''3rd Week'', ''4th Week'', ''5th Week''] ! nat (w - 1))"
proof -
  from assms have "w = 1 \<or> w = 2 \<or> w = 3 \<or> w = 4 \<or> w = 5" by linarith
  then show ?thesis by (auto simp: week_names_def)
qed

lemma length_ffill_from: "length (ffill_from p xs) = length xs"
  by (induction p xs rule: ffill_from.induct) simp_all

lemma ffill_from_keeps:
  "i < length xs \<Longrightarrow> xs ! i = Some v \<Longrightarrow> ffill_from p xs ! i = Some v"
proof (induction p xs arbitrary: i rule: ffill_from.induct)
  case (1 p)
  then show ?case by simp
next
  case (2 p xs)
  then show ?case by (cases i) simp_all
next
  case (3 p y xs)
  then show ?case by (cases i) simp_all
qed

lemma fillna_value_keeps:
  "i < length xs \<Longrightarrow> xs ! i = Some v \<Longrightarrow> fillna_value d xs ! i = Some v"
  by (simp add: fillna_value_def)

lemma filled_num_keeps:
  assumes "i < length xs" "xs ! i = Some v"
  shows "ffill_from None (fillna_value d xs) ! i = Some v"
  by (rule ffill_from_keeps) (simp_all add: assms fillna_value_def)

lemma add_week_of_month_cols:
  assumes "add_week_of_month df = Inr df'"
    and "getitem df ''lpep_pickup_datetime'' = Inr (TimeCol ts)"
  shows "getitem df' ''day_of_month'' =
           Inr (NumCol (map (map_option (\<lambda>t. real_of_int (dt_day t))) ts))"
    and "getitem df' ''week_of_month'' =
           Inr (NumCol (map (map_option (\<lambda>t. week_of_day (real_of_int (dt_day t)))) ts))"
    and "getitem df' ''week_name'' =
           Inr (StrCol (map (\<lambda>x. case x of None \<Rightarrow> None
                  | Some t \<Rightarrow> dict_get week_names (week_of_day (real_of_int (dt_day t)))) ts))"
  using assms
  by (auto simp: add_week_of_month_def and_then_Inr_iff getitem_setitem dt_values_def
        week_of_month_col_def series_map_def Let_def o_def option.map_comp
        split: option.splits intro!: map_cong)


lemma load_data_steps:
  assumes "load_data raw = Inr df"
  obtains df1 df2 df3 df4 df5 where
    "add_trip_duration (drop_ignore [''ehail_fee'', ''fare_amount''] raw) = Inr df1"
    "add_weekday df1 = Inr df2"
    "add_hourofday df2 = Inr df3"
    "add_week_of_month df3 = Inr df4"
    "add_payment_type_name (fill_missing df4) = Inr df5"
    "add_trip_type_name df5 = Inr df"
  using assms unfolding load_data_def derive_columns_def and_then_Inr_iff by blast

lemma add_week_of_month_other:
  "add_week_of_month df = Inr df' \<Longrightarrow> m \<noteq> ''day_of_month'' \<Longrightarrow>
     m \<noteq> ''week_of_month'' \<Longrightarrow> m \<noteq> ''week_name'' \<Longrightarrow> getitem df' m = getitem df m"
  by (auto simp: add_week_of_month_def and_then_Inr_iff getitem_setitem Let_def)

lemma add_trip_duration_col:
  assumes "add_trip_duration df = Inr df'"
    and "getitem df ''lpep_dropoff_datetime'' = Inr (TimeCol ds)"
    and "getitem df ''lpep_pickup_datetime'' = Inr (TimeCol ps)"
  shows "getitem df' ''trip_duration'' =
     Inr (NumCol (map (\<lambda>(x, y). case (x, y) of
            (Some s, Some t) \<Rightarrow> Some (total_seconds (s - t) / 60)
          | _ \<Rightarrow> None) (zip ds ps)))"
  using assms
  by (auto simp: add_trip_duration_def and_then_Inr_iff getitem_setitem minutes_between_def)

subsection \<open>The derived columns of \<^verbatim>\<open>load_data\<close>\<close>

lemma example_raw_loads: "\<exists>df. load_data example_raw = Inr df"
proof -
  have "\<not> isl (load_data example_raw)" by code_simp
  then show ?thesis by (cases "load_data example_raw") simp_all
qed

text \<open>
  Claim C1, as the code has it: for every row of the loaded data whose pickup timestamp
  is present, \<^verbatim>\<open>day_of_month\<close> is the day of the month of that timestamp, a number from
  1 to 31, \<^verbatim>\<open>week_of_month\<close> is \<open>((day_of_month - 1) div 7) + 1\<close>, and \<^verbatim>\<open>week_name\<close> is
  the label that the fixed table (1st Week to 5th Week) gives to that week. A row whose
  pickup timestamp is missing is left out: the example after the theorem shows why.
\<close>

theorem week_of_month_of_pickup:
  assumes "load_data raw = Inr df"
    and "getitem raw ''lpep_pickup_datetime'' = Inr (TimeCol ts)"
    and "i < length ts"
    and "ts ! i = Some t"
  shows "\<exists>days weeks names.
     getitem df ''day_of_month'' = Inr (NumCol days) \<and>
     getitem df ''week_of_month'' = Inr (NumCol weeks) \<and>
     getitem df ''week_name'' = Inr (StrCol names) \<and>
     days ! i = Some (real_of_int (dt_day t)) \<and>
     1 \<le> dt_day t \<and> dt_day t \<le> 31 \<and>
     weeks ! i = Some (real_of_int ((dt_day t - 1) div 7 + 1)) \<and>
     names ! i = map_of week_names ((dt_day t - 1) div 7 + 1) \<and>
     names ! i = Some ([''1st Week'', ''2nd Week'', ''3rd Week'', ''4th Week'', ''5th Week'']
                        ! nat ((dt_day t - 1) div 7))"
proof -
  from assms(1) obtain df1 df2 df3 df4 df5 where
    s1: "add_trip_duration (drop_ignore [''ehail_fee'', ''fare_amount''] raw) = Inr df1" and
    s2: "add_weekday df1 = Inr df2" and
    s3: "add_hourofday df2 = Inr df3" and
    s4: "add_week_of_month df3 = Inr df4" and
    s5: "add_payment_type_name (fill_missing df4) = Inr df5" and
    s6: "add_trip_type_name df5 = Inr df"
    by (rule load_data_steps)
  define w where "w = (dt_day t - 1) div 7 + 1"
  have pick3: "getitem df3 ''lpep_pickup_datetime'' = Inr (TimeCol ts)"
    using assms(2)
    by (simp add: add_hourofday_other [OF s3] add_weekday_other [OF s2]
          add_trip_duration_other [OF s1] getitem_drop_ignore)
  note c4 = add_week_of_month_cols [OF s4 pick3]
  define days0 where "days0 = map (map_option (\<lambda>t. real_of_int (dt_day t))) ts"
  define weeks0 where
    "weeks0 = map (map_option (\<lambda>t. week_of_day (real_of_int (dt_day t)))) ts"
  define names0 where
    "names0 = map (\<lambda>x. case x of None \<Rightarrow> None
        | Some t \<Rightarrow> dict_get week_names (week_of_day (real_of_int (dt_day t)))) ts"
  define days where "days = ffill_from None (fillna_value (median days0) days0)"
  define weeks where "weeks = ffill_from None (fillna_value (median weeks0) weeks0)"
  define names where "names = ffill_from None names0"
  have after: "getitem df m = getitem (fill_missing df4) m"
    if "m \<noteq> ''payment_type_name''" "m \<noteq> ''trip_type_name''" for m
    using that
    by (simp add: add_trip_type_name_other [OF s6] add_payment_type_name_other [OF s5])
  have g1: "getitem df ''day_of_month'' = Inr (NumCol days)"
    by (simp add: after getitem_fill_missing c4(1) days_def days0_def)
  have g2: "getitem df ''week_of_month'' = Inr (NumCol weeks)"
    by (simp add: after getitem_fill_missing c4(2) weeks_def weeks0_def)
  have g3: "getitem df ''week_name'' = Inr (StrCol names)"
    by (simp add: after getitem_fill_missing c4(3) names_def names0_def)
  have rng: "1 \<le> dt_day t \<and> dt_day t \<le> 31" by (rule dt_day_range)
  then have wr: "1 \<le> w \<and> w \<le> 5" unfolding w_def by (intro week_range) simp_all
  have d0: "days0 ! i = Some (real_of_int (dt_day t))"
    using assms(3,4) by (simp add: days0_def)
  have w0: "weeks0 ! i = Some (real_of_int w)"
    using assms(3,4) by (simp add: weeks0_def week_of_day_int w_def)
  have lab: "map_of week_names w =
      Some ([''1st Week'', ''2nd Week'', ''3rd Week'', ''4th Week'', ''5th Week''] ! nat (w - 1))"
    using wr by (intro week_label) simp_all
  have n0: "names0 ! i = map_of week_names w"
    using assms(3,4) by (simp add: names0_def week_name_of_day w_def)
  have e1: "days ! i = Some (real_of_int (dt_day t))"
    unfolding days_def using assms(3) d0 by (intro filled_num_keeps) (simp_all add: days0_def)
  have e2: "weeks ! i = Some (real_of_int w)"
    unfolding weeks_def using assms(3) w0 by (intro filled_num_keeps) (simp_all add: weeks0_def)
  have e3: "names ! i = map_of week_names w"
    unfolding names_def using assms(3) n0 lab
    by (simp add: ffill_from_keeps names0_def)
  have e4: "names ! i =
      Some ([''1st Week'', ''2nd Week'', ''3rd Week'', ''4th Week'', ''5th Week'']
             ! nat ((dt_day t - 1) div 7))"
    using e3 lab by (simp add: w_def)
  from g1 g2 g3 e1 e2 e3 e4 rng show ?thesis unfolding w_def by blast
qed

theorem week_of_month_of_pickup_witness:
  "\<exists>df days weeks names.
     load_data example_raw = Inr df \<and>
     getitem df ''day_of_month'' = Inr (NumCol days) \<and>
     getitem df ''week_of_month'' = Inr (NumCol weeks) \<and>
     getitem df ''week_name'' = Inr (StrCol names) \<and>
     days ! 1 = Some 14 \<and> weeks ! 1 = Some 2 \<and> names ! 1 = Some ''2nd Week''"
proof -
  obtain df where L: "load_data example_raw = Inr df"
    using example_raw_loads by blast
  have P: "getitem example_raw ''lpep_pickup_datetime'' =
      Inr (TimeCol [Some 1691395200000000000, Some 1692003600000000000,
                    Some 1690933800000000000])"
    by (simp add: example_raw_def getitem_def)
  have D: "dt_day 1692003600000000000 = 14" by code_simp
  from week_of_month_of_pickup [OF L P, of 1 1692003600000000000]
  show ?thesis using L unfolding D by (auto simp: week_names_def)
qed

text \<open>
  The claim as it was stated, for every row, fails on a row whose pickup timestamp is
  missing. Lines 50 to 52 leave the three derived cells of such a row missing; line 60
  then fills \<^verbatim>\<open>day_of_month\<close> and \<^verbatim>\<open>week_of_month\<close> each with the median of its own
  column, and line 61 copies \<^verbatim>\<open>week_name\<close> from the row above. With pickups on the 7th
  and on the 8th around it, the row gets the day 7.5 and the week 1.5, while
  \<open>((7.5 - 1) // 7) + 1\<close> is 1.
\<close>

theorem week_of_month_counterexample:
  "and_then (load_data example_missing_pickup) (\<lambda>df. getitem df ''day_of_month'')
     = Inr (NumCol [Some 7, Some (15 / 2), Some 8]) \<and>
   and_then (load_data example_missing_pickup) (\<lambda>df. getitem df ''week_of_month'')
     = Inr (NumCol [Some 1, Some (3 / 2), Some 2]) \<and>
   and_then (load_data example_missing_pickup) (\<lambda>df. getitem df ''week_name'')
     = Inr (StrCol [Some ''1st Week'', Some ''1st Week'', Some ''2nd Week'']) \<and>
   week_of_day (15 / 2) = 1 \<and> week_of_day (15 / 2) \<noteq> 3 / 2"
  by code_simp

text \<open>
  Claim C2, as the code has it: for every row of the loaded data whose two timestamps
  are present, \<^verbatim>\<open>trip_duration\<close> is the dropoff minus the pickup, in seconds, divided by
  60. Nothing is clamped: the value is negative exactly when the dropoff precedes the
  pickup. A row with a missing timestamp is left out: the example after the theorem
  shows why.
\<close>

theorem trip_duration_minutes:
  assumes "load_data raw = Inr df"
    and "getitem raw ''lpep_pickup_datetime'' = Inr (TimeCol ps)"
    and "getitem raw ''lpep_dropoff_datetime'' = Inr (TimeCol ds)"
    and "i < length ps" and "i < length ds"
    and "ps ! i = Some p" and "ds ! i = Some d"
  shows "\<exists>durs.
     getitem df ''trip_duration'' = Inr (NumCol durs) \<and>
     durs ! i = Some (real_of_int (d - p) / 10 ^ 9 / 60) \<and>
     (real_of_int (d - p) / 10 ^ 9 / 60 < 0) = (d < p)"
proof -
  from assms(1) obtain df1 df2 df3 df4 df5 where
    s1: "add_trip_duration (drop_ignore [''ehail_fee'', ''fare_amount''] raw) = Inr df1" and
    s2: "add_weekday df1 = Inr df2" and
    s3: "add_hourofday df2 = Inr df3" and
    s4: "add_week_of_month df3 = Inr df4" and
    s5: "add_payment_type_name (fill_missing df4) = Inr df5" and
    s6: "add_trip_type_name df5 = Inr df"
    by (rule load_data_steps)
  define durs0 where
    "durs0 = map (\<lambda>(x, y). case (x, y) of
        (Some s, Some t) \<Rightarrow> Some (total_seconds (s - t) / 60)
      | _ \<Rightarrow> None) (zip ds ps)"
  define durs where "durs = ffill_from None (fillna_value (median durs0) durs0)"
  have c1: "getitem df1 ''trip_duration'' = Inr (NumCol durs0)"
    unfolding durs0_def
    by (rule add_trip_duration_col [OF s1]) (simp_all add: getitem_drop_ignore assms(2,3))
  have c4: "getitem df4 ''trip_duration'' = Inr (NumCol durs0)"
    using c1
    by (simp add: add_week_of_month_other [OF s4] add_hourofday_other [OF s3]
          add_weekday_other [OF s2])
  have g: "getitem df ''trip_duration'' = Inr (NumCol durs)"
    by (simp add: add_trip_type_name_other [OF s6] add_payment_type_name_other [OF s5]
          getitem_fill_missing c4 durs_def)
  have len: "i < length durs0" using assms(4,5) by (simp add: durs0_def)
  have v0: "durs0 ! i = Some (real_of_int (d - p) / 10 ^ 9 / 60)"
    using assms(4-7) by (simp add: durs0_def total_seconds_def)
  have v: "durs ! i = Some (real_of_int (d - p) / 10 ^ 9 / 60)"
    unfolding durs_def by (rule filled_num_keeps [OF len v0])
  have sign: "(real_of_int (d - p) / 10 ^ 9 / 60 < 0) = (d < p)"
    by (simp add: divide_less_0_iff)
  from g v sign show ?thesis by blast
qed

theorem trip_duration_minutes_witness:
  "\<exists>df durs.
     load_data example_raw = Inr df \<and>
     getitem df ''trip_duration'' = Inr (NumCol durs) \<and>
     durs ! 2 = Some (- 10)"
proof -
  obtain df where L: "load_data example_raw = Inr df"
    using example_raw_loads by blast
  have P: "getitem example_raw ''lpep_pickup_datetime'' =
      Inr (TimeCol [Some 1691395200000000000, Some 1692003600000000000,
                    Some 1690933800000000000])"
    by (simp add: example_raw_def getitem_def)
  have Q: "getitem example_raw ''lpep_dropoff_datetime'' =
      Inr (TimeCol [Some 1691395800000000000, Some 1692005400000000000,
                    Some 1690933200000000000])"
    by (simp add: example_raw_def getitem_def)
  from trip_duration_minutes [OF L P Q, of 2 1690933800000000000 1690933200000000000]
  show ?thesis using L by auto
qed

text \<open>
  The claim as it was stated, for every row, fails on a row with a missing timestamp:
  line 45 leaves its duration missing and line 60 fills it with the median of the column.
  In the example the second trip gets 10 minutes, the median of the two other trips,
  while its dropoff is 20 minutes after the pickup that line 61 copies into the row.
\<close>

theorem trip_duration_counterexample:
  "and_then (load_data example_missing_pickup) (\<lambda>df. getitem df ''trip_duration'')
     = Inr (NumCol [Some 10, Some 10, Some 10]) \<and>
   and_then (load_data example_missing_pickup) (\<lambda>df. getitem df ''lpep_pickup_datetime'')
     = Inr (TimeCol [Some 1691395200000000000, Some 1691395200000000000,
                     Some 1691481600000000000]) \<and>
   and_then (load_data example_missing_pickup) (\<lambda>df. getitem df ''lpep_dropoff_datetime'')
     = Inr (TimeCol [Some 1691395800000000000, Some 1691396400000000000,
                     Some 1691482200000000000]) \<and>
   total_seconds (1691396400000000000 - 1691395200000000000) / 60 = 20"
  by code_simp

subsection \<open>The filling of missing values\<close>

lemma present_Nil [simp]: "present [] = []"
  by (simp add: present_def)

lemma present_Cons [simp]:
  "present (x # xs) = (case x of None \<Rightarrow> present xs | Some v \<Rightarrow> v # present xs)"
  by (cases x) (simp_all add: present_def)

lemma ffill_from_nth:
  "i < length xs \<Longrightarrow>
     ffill_from p xs ! i =
       (case present (take (Suc i) xs) of [] \<Rightarrow> p | v # vs \<Rightarrow> Some (last (v # vs)))"
proof (induction p xs arbitrary: i rule: ffill_from.induct)
  case (1 p)
  then show ?case by simp
next
  case (2 p xs)
  then show ?case by (cases i) (simp_all split: list.splits)
next
  case (3 p y xs)
  then show ?case by (cases i) (simp_all split: list.splits)
qed

lemma ffill_nearest:
  "i < length xs \<Longrightarrow> ffill_from None xs ! i = nearest_before xs i"
  by (simp add: ffill_from_nth nearest_before_def)

lemma sort_eq_Nil_iff: "sort ys = [] \<longleftrightarrow> ys = []"
  by (metis length_0_conv length_sort)

lemma median_None_iff: "median xs = None \<longleftrightarrow> present xs = []"
proof (cases "present xs = []")
  case True
  then show ?thesis by (simp add: median_def)
next
  case False
  then have "length (sort (present xs)) \<noteq> 0" by simp
  then have "median xs \<noteq> None"
    unfolding median_def Let_def by (simp only: if_False split: if_splits) simp
  with False show ?thesis by simp
qed

lemma present_empty_iff: "present xs = [] \<longleftrightarrow> (\<forall>x \<in> set xs. x = None)"
  by (induction xs) (auto split: option.splits)

lemma ffill_from_all_present:
  "\<forall>x \<in> set xs. x \<noteq> None \<Longrightarrow> ffill_from p xs = xs"
  by (induction p xs rule: ffill_from.induct) simp_all

lemma ffill_from_all_missing:
  "\<forall>x \<in> set xs. x = None \<Longrightarrow> ffill_from None xs = xs"
  by (induction xs) simp_all

lemma ffill_after_median:
  "ffill_from None (fillna_value (median xs) xs) = fillna_value (median xs) xs"
proof (cases "median xs")
  case None
  then have "\<forall>x \<in> set xs. x = None" by (simp add: median_None_iff present_empty_iff)
  then have "\<forall>x \<in> set (fillna_value None xs). x = None"
    by (auto simp: fillna_value_def)
  then show ?thesis using None by (simp add: ffill_from_all_missing)
next
  case (Some m)
  have "\<forall>x \<in> set (fillna_value (Some m) xs). x \<noteq> None"
    by (auto simp: fillna_value_def split: option.splits)
  then show ?thesis using Some by (simp add: ffill_from_all_present)
qed


lemma ffill_from_as_nearest:
  "ffill_from None xs = map (nearest_before xs) [0..<length xs]"
  by (rule nth_equalityI) (simp_all add: length_ffill_from ffill_nearest)

lemma fills_refine_spec:
  "ffill_col (fillna_median_col c) = spec_forward_fill (spec_impute_median c)"
  by (cases c) (simp_all add: ffill_from_as_nearest fillna_value_def)

lemma numeric_nothing_left_to_propagate:
  "spec_forward_fill (spec_impute_median (NumCol xs)) = spec_impute_median (NumCol xs)"
  using ffill_after_median [of xs]
  by (simp add: ffill_from_as_nearest fillna_value_def)

text \<open>The two steps do not commute: a missing cell between 1 and 3.\<close>

lemma fill_order_matters:
  "spec_forward_fill (spec_impute_median (NumCol [Some 1, None, Some 3]))
     = NumCol [Some 1, Some 2, Some 3]
   \<and> spec_impute_median (spec_forward_fill (NumCol [Some 1, None, Some 3]))
     = NumCol [Some 1, Some 1, Some 3]"
  by code_simp

text \<open>
  Claim C8. During the load the missing values are filled in two steps, in this order.
  First every numeric column gets its own median, taken over the whole column as it is
  at that point of the pipeline, in each of its missing cells. Then every cell that is
  still missing gets the nearest preceding value that is present, in row order. Every
  column that the frame has at that point and that the later steps do not replace comes
  out of the load as these two steps leave it.
\<close>

theorem median_imputed_before_forward_fill:
  assumes "load_data raw = Inr df"
    and "name \<noteq> ''payment_type_name''" and "name \<noteq> ''trip_type_name''"
  shows "\<exists>before.
     derive_columns raw = Inr before \<and>
     getitem df name = map_sum id (\<lambda>c. spec_forward_fill (spec_impute_median c))
                         (getitem before name)"
proof -
  from assms(1) obtain before df5 where
    s4: "derive_columns raw = Inr before" and
    s5: "add_payment_type_name (fill_missing before) = Inr df5" and
    s6: "add_trip_type_name df5 = Inr df"
    unfolding load_data_def and_then_Inr_iff by blast
  have "getitem df name = getitem (fill_missing before) name"
    using assms(2,3)
    by (simp add: add_trip_type_name_other [OF s6] add_payment_type_name_other [OF s5])
  also have "\<dots> = map_sum id (\<lambda>c. spec_forward_fill (spec_impute_median c))
                     (getitem before name)"
    by (simp add: getitem_fill_missing fills_refine_spec)
  finally show ?thesis using s4 by blast
qed

theorem median_imputed_before_forward_fill_witness:
  "\<exists>df. load_data example_raw = Inr df \<and>
     getitem df ''passenger_count'' = Inr (NumCol [Some 1, Some 2, Some 3])"
proof -
  obtain df where L: "load_data example_raw = Inr df"
    using example_raw_loads by blast
  from median_imputed_before_forward_fill [OF L, of "''passenger_count''"]
  obtain before where
    b: "derive_columns example_raw = Inr before" and
    g: "getitem df ''passenger_count'' =
          map_sum id (\<lambda>c. spec_forward_fill (spec_impute_median c))
            (getitem before ''passenger_count'')"
    by auto
  have "and_then (derive_columns example_raw) (\<lambda>d. getitem d ''passenger_count'')
          = Inr (NumCol [Some 1, None, Some 3])"
    by code_simp
  then have "getitem before ''passenger_count'' = Inr (NumCol [Some 1, None, Some 3])"
    by (simp add: b and_then_def)
  with g fill_order_matters have
    "getitem df ''passenger_count'' = Inr (NumCol [Some 1, Some 2, Some 3])"
    by simp
  with L show ?thesis by blast
qed

subsection \<open>Filters\<close>

lemma select_Nil [simp]: "select [] xs = []" "select ks [] = []"
  by (simp_all add: select_def)

lemma select_Cons [simp]:
  "select (k # ks) (x # xs) = (if k then x # select ks xs else select ks xs)"
  by (simp add: select_def)

lemma select_map: "select ks (map f xs) = map f (select ks xs)"
proof (induction ks arbitrary: xs)
  case Nil
  then show ?case by simp
next
  case (Cons k ks)
  then show ?case by (cases xs) simp_all
qed

lemma select_select:
  "length ks = length js \<Longrightarrow> length js = length xs \<Longrightarrow>
     select (select ks js) (select ks xs) = select (map (\<lambda>(p, q). p \<and> q) (zip ks js)) xs"
  by (induction ks js xs rule: list_induct3) simp_all

lemma length_select_le: "length ks = length xs \<Longrightarrow> length (select ks xs) = length (filter id ks)"
  by (induction ks xs rule: list_induct2) simp_all

lemma and_masks_commute:
  "map (\<lambda>(p, q). p \<and> q) (zip ks js) = map (\<lambda>(p, q). p \<and> q) (zip js ks)"
proof (induction ks arbitrary: js)
  case Nil
  then show ?case by simp
next
  case (Cons k ks)
  then show ?case by (cases js) auto
qed

lemma col_cells_select: "col_cells (col_select ks c) = select ks (col_cells c)"
  by (cases c) (simp_all add: select_map)

lemma length_col_cells [simp]: "length (col_cells c) = col_len c"
  by (cases c) simp_all

lemma length_eq_mask [simp]: "length (eq_mask c v) = col_len c"
  by (simp add: eq_mask_def)

lemma eq_mask_select: "eq_mask (col_select ks c) v = select ks (eq_mask c v)"
  by (simp add: eq_mask_def col_cells_select select_map)

lemma getitem_take_rows:
  "getitem (take_rows ks df) m = map_sum id (col_select ks) (getitem df m)"
  by (simp add: getitem_def take_rows_def map_of_map split: option.splits)

lemma col_select_select:
  "length ks = length js \<Longrightarrow> length js = col_len c \<Longrightarrow>
     col_select (select ks js) (col_select ks c)
       = col_select (map (\<lambda>(p, q). p \<and> q) (zip ks js)) c"
  by (cases c) (simp_all add: select_select)

lemma wf_col_len:
  "well_formed df \<Longrightarrow> (n, c) \<in> set (columns df) \<Longrightarrow> col_len c = len df"
  by (auto simp: well_formed_def list_all_iff)

lemma wf_getitem:
  "well_formed df \<Longrightarrow> getitem df m = Inr c \<Longrightarrow> col_len c = len df"
  by (auto simp: getitem_def split: option.splits dest: map_of_SomeD wf_col_len)

lemma take_rows_twice:
  assumes "well_formed df" "length ks = len df" "length js = len df"
  shows "take_rows (select ks js) (take_rows ks df)
           = take_rows (map (\<lambda>(p, q). p \<and> q) (zip ks js)) df"
proof -
  have idx: "select (select ks js) (select ks (index df))
      = select (map (\<lambda>(p, q). p \<and> q) (zip ks js)) (index df)"
    using assms(2,3) by (intro select_select) (simp_all add: len_def)
  have "col_select (select ks js) (col_select ks c)
      = col_select (map (\<lambda>(p, q). p \<and> q) (zip ks js)) c"
    if "(n, c) \<in> set (columns df)" for n c
    using assms that by (intro col_select_select) (simp_all add: wf_col_len)
  then have cols: "\<forall>nc \<in> set (columns df).
      col_select (select ks js) (col_select ks (snd nc))
        = col_select (map (\<lambda>(p, q). p \<and> q) (zip ks js)) (snd nc)"
    by (metis prod.collapse)
  show ?thesis using cols by (simp add: take_rows_def idx case_prod_beta)
qed

lemma two_filters:
  assumes "well_formed df"
    and "getitem df a = Inr ca" and "getitem df b = Inr cb"
  shows "and_then (filter_eq a x df) (filter_eq b y)
           = Inr (take_rows (map (\<lambda>(p, q). p \<and> q) (zip (eq_mask ca x) (eq_mask cb y))) df)"
proof -
  have la: "length (eq_mask ca x) = len df" and lb: "length (eq_mask cb y) = len df"
    using assms by (simp_all add: wf_getitem)
  have "and_then (filter_eq a x df) (filter_eq b y)
      = Inr (take_rows (select (eq_mask ca x) (eq_mask cb y)) (take_rows (eq_mask ca x) df))"
    by (simp add: filter_eq_def and_then_def assms(2,3) getitem_take_rows eq_mask_select)
  also have "\<dots> = Inr (take_rows (map (\<lambda>(p, q). p \<and> q) (zip (eq_mask ca x) (eq_mask cb y))) df)"
    by (simp add: take_rows_twice [OF assms(1) la lb])
  finally show ?thesis .
qed

text \<open>
  Claim C7. Filtering does not depend on the order of the predicates: for every frame
  and every two exact-match predicates on columns of the frame, applying them in either
  order gives the same rows, namely the rows of the frame where both predicates hold
  (the two masks combined with a logical and).
\<close>

theorem filter_order_independent:
  assumes "well_formed df"
    and "getitem df a = Inr ca" and "getitem df b = Inr cb"
  shows "and_then (filter_eq a x df) (filter_eq b y)
           = and_then (filter_eq b y df) (filter_eq a x)
       \<and> and_then (filter_eq a x df) (filter_eq b y)
           = Inr (take_rows (map (\<lambda>(p, q). p \<and> q) (zip (eq_mask ca x) (eq_mask cb y))) df)"
  by (simp add: two_filters [OF assms(1,2,3)] two_filters [OF assms(1,3,2)]
        and_masks_commute [of "eq_mask ca x"])

theorem filter_order_independent_witness:
  "and_then (filter_eq ''payment_type'' (Num 1) example_raw) (filter_eq ''trip_type'' (Num 1))
     = and_then (filter_eq ''trip_type'' (Num 1) example_raw) (filter_eq ''payment_type'' (Num 1))
   \<and> map_sum id index
       (and_then (filter_eq ''payment_type'' (Num 1) example_raw) (filter_eq ''trip_type'' (Num 1)))
     = Inr [0]"
proof -
  have w: "well_formed example_raw" by code_simp
  have a: "getitem example_raw ''payment_type'' = Inr (NumCol [Some 1, Some 2, Some 1])"
    by (simp add: example_raw_def getitem_def)
  have b: "getitem example_raw ''trip_type'' = Inr (NumCol [Some 1, Some 1, Some 2])"
    by (simp add: example_raw_def getitem_def)
  have i: "index (take_rows (map (\<lambda>(p, q). p \<and> q)
        (zip (eq_mask (NumCol [Some 1, Some 2, Some 1]) (Num 1))
             (eq_mask (NumCol [Some 1, Some 1, Some 2]) (Num 1)))) example_raw) = [0]"
    by (simp add: take_rows_def eq_mask_def example_raw_def)
  note t = filter_order_independent [OF w a b, of "Num 1" "Num 1"]
  show ?thesis
    by (rule conjI, rule t [THEN conjunct1], simp add: t [THEN conjunct2] i)
qed

subsection \<open>Key metrics\<close>

lemma wf_empty_column:
  assumes "well_formed fdf" "len fdf = 0" "getitem fdf m = Inr (NumCol xs)"
  shows "xs = []"
  using wf_getitem [OF assms(1,3)] assms(2) by simp

text \<open>
  Claim C3, as the code has it: for the empty filtered subset (no rows) the number of
  trips is reported as 0, and the means of \<^verbatim>\<open>trip_distance\<close>, \<^verbatim>\<open>trip_duration\<close> and
  \<^verbatim>\<open>total_amount\<close> are undefined (NaN). Nothing is raised and no number is shown for
  them, but nothing says that there is no data either: the NaN goes through the same
  formatter as a number, and the three texts are \<^verbatim>\<open>nan miles\<close>, \<^verbatim>\<open>nan mins\<close> and
  \<^verbatim>\<open>$nan\<close>.
\<close>

theorem key_metrics_of_empty_subset:
  assumes "well_formed fdf" and "len fdf = 0"
    and "getitem fdf ''trip_distance'' = Inr (NumCol a)"
    and "getitem fdf ''trip_duration'' = Inr (NumCol b)"
    and "getitem fdf ''total_amount'' = Inr (NumCol c)"
  shows "key_metrics fdf = Inr (0, ''nan miles'', ''nan mins'', ''$nan'')
       \<and> mean a = NaN \<and> mean b = NaN \<and> mean c = NaN"
proof -
  have "a = []" "b = []" "c = []"
    using assms by (auto dest: wf_empty_column)
  then show ?thesis
    using assms(2-5)
    by (simp add: key_metrics_def and_then_def col_mean_def mean_def present_def
          format_float_def)
qed

theorem key_metrics_of_empty_subset_witness:
  "key_metrics \<lparr>index = [], columns = [(''trip_distance'', NumCol []),
       (''trip_duration'', NumCol []), (''total_amount'', NumCol [])]\<rparr>
     = Inr (0, ''nan miles'', ''nan mins'', ''$nan'')"
proof -
  let ?f = "\<lparr>index = [], columns = [(''trip_distance'', NumCol []),
       (''trip_duration'', NumCol []), (''total_amount'', NumCol [])]\<rparr>"
  have w: "well_formed ?f" by (simp add: well_formed_def len_def)
  have l: "len ?f = 0" by (simp add: len_def)
  have g: "getitem ?f ''trip_distance'' = Inr (NumCol [])"
    "getitem ?f ''trip_duration'' = Inr (NumCol [])"
    "getitem ?f ''total_amount'' = Inr (NumCol [])"
    by (simp_all add: getitem_def)
  from key_metrics_of_empty_subset [OF w l g] show ?thesis by simp
qed

text \<open>
  The claim as it was stated fails: lines 159 to 161 format the mean with \<^verbatim>\<open>:.2f\<close>
  whatever it is, so the empty subset shows the formatter's text for NaN with the unit
  around it, and no indication worded for the case.
\<close>

theorem key_metrics_no_data_counterexample:
  "key_metrics \<lparr>index = [], columns = [(''trip_distance'', NumCol []),
       (''trip_duration'', NumCol []), (''total_amount'', NumCol [])]\<rparr>
     = Inr (0, format_float 2 NaN @ '' miles'', format_float 2 NaN @ '' mins'',
            ''$'' @ format_float 2 NaN) \<and>
   format_float 2 NaN = ''nan'' \<and>
   \<not> (\<exists>n. key_metrics \<lparr>index = [], columns = [(''trip_distance'', NumCol []),
       (''trip_duration'', NumCol []), (''total_amount'', NumCol [])]\<rparr>
     = Inr (n, ''no data'', ''no data'', ''no data''))"
proof -
  have "key_metrics \<lparr>index = [], columns = [(''trip_distance'', NumCol []),
       (''trip_duration'', NumCol []), (''total_amount'', NumCol [])]\<rparr>
     = Inr (0, ''nan miles'', ''nan mins'', ''$nan'')"
    by code_simp
  then show ?thesis by (simp add: format_float_def)
qed

subsection \<open>Counts per weekday\<close>

lemma set_present: "set (present xs) = {v. Some v \<in> set xs}"
  by (induction xs) (auto simp: present_def)

lemma set_uniq_sorted: "set (uniq_sorted xs) = {v. Some v \<in> set xs}"
  by (simp add: uniq_sorted_def set_present)

lemma distinct_uniq_sorted: "distinct (uniq_sorted xs)"
  by (simp add: uniq_sorted_def)

lemma Some_in_map_option:
  "Some k \<in> map_option f ` S \<longleftrightarrow> (\<exists>v. k = f v \<and> Some v \<in> S)"
proof
  assume "Some k \<in> map_option f ` S"
  then obtain a where a: "a \<in> S" "Some k = map_option f a" by auto
  then show "\<exists>v. k = f v \<and> Some v \<in> S" by (cases a) auto
next
  assume "\<exists>v. k = f v \<and> Some v \<in> S"
  then obtain v where v: "k = f v" "Some v \<in> S" by auto
  have "map_option f (Some v) \<in> map_option f ` S" using v(2) by (rule imageI)
  then show "Some k \<in> map_option f ` S" using v(1) by simp
qed

lemma set_col_keys: "set (col_keys c) = {k. Some k \<in> set (col_cells c)}"
  by (cases c) (auto simp: set_uniq_sorted Some_in_map_option)

lemma distinct_col_keys: "distinct (col_keys c)"
  by (cases c) (simp_all add: distinct_map distinct_uniq_sorted inj_on_def)

lemma distinct_fst_sort_key:
  "distinct (map fst (sort_key f xs)) = distinct (map fst xs)"
  by (simp add: distinct_map)

lemma map_of_sort_key:
  "distinct (map fst xs) \<Longrightarrow> map_of (sort_key f xs) = map_of xs"
  by (subst map_of_inject_set) (simp_all add: distinct_fst_sort_key)

lemma map_of_tabulate:
  "map_of (map (\<lambda>k. (k, g k)) ks) k = (if k \<in> set ks then Some (g k) else None)"
  by (induction ks) auto

lemma map_of_value_counts:
  "map_of (value_counts c) k =
     (if count_list (col_cells c) (Some k) = 0 then None
      else Some (count_list (col_cells c) (Some k)))"
proof -
  have d: "distinct (map fst (map (\<lambda>k. (k, count_list (col_cells c) (Some k))) (col_keys c)))"
    by (simp add: o_def distinct_col_keys)
  show ?thesis
    unfolding value_counts_def map_of_sort_key [OF d]
    by (simp add: map_of_tabulate set_col_keys count_list_0_iff)
qed

text \<open>
  Claim C4, as amended. For every filtered subset the counts per weekday come in the
  fixed order Monday to Sunday, with one entry for each of the seven weekdays. A weekday
  that occurs in the subset shows the number of its rows; a weekday with no row in the
  subset is not omitted, but its entry is a missing value (NaN), not the count 0.
\<close>

theorem weekday_counts_in_fixed_order:
  assumes "getitem fdf ''weekday'' = Inr c"
    and "d \<in> set day_names"
  shows "\<exists>r. weekday_counts fdf = Inr r \<and>
     map fst r = map Str day_names \<and>
     map_of r (Str d) =
       Some (if count_list (col_cells c) (Some (Str d)) = 0 then None
             else Some (real (count_list (col_cells c) (Some (Str d)))))"
proof -
  define r where "r = reindex (map Str day_names) (value_counts c)"
  have run: "weekday_counts fdf = Inr r"
    by (simp add: weekday_counts_def and_then_def assms(1) r_def)
  have order: "map fst r = map Str day_names"
    by (simp add: r_def reindex_def o_def)
  have "Str d \<in> set (map Str day_names)" using assms(2) by simp
  then have "map_of r (Str d) = Some (map_option real (map_of (value_counts c) (Str d)))"
    unfolding r_def reindex_def by (simp only: map_of_tabulate if_True)
  then have entry: "map_of r (Str d) =
       Some (if count_list (col_cells c) (Some (Str d)) = 0 then None
             else Some (real (count_list (col_cells c) (Some (Str d)))))"
    by (simp add: map_of_value_counts)
  from run order entry show ?thesis by blast
qed

theorem weekday_counts_in_fixed_order_witness:
  "\<exists>r. weekday_counts \<lparr>index = [0, 1], columns = [(''weekday'',
           StrCol [Some ''Monday'', Some ''Monday''])]\<rparr> = Inr r \<and>
     map fst r = map Str day_names \<and>
     map_of r (Str ''Monday'') = Some (Some 2) \<and>
     map_of r (Str ''Tuesday'') = Some None"
proof -
  let ?f = "\<lparr>index = [0, 1], columns = [(''weekday'',
      StrCol [Some ''Monday'', Some ''Monday''])]\<rparr>"
  have g: "getitem ?f ''weekday'' = Inr (StrCol [Some ''Monday'', Some ''Monday''])"
    by (simp add: getitem_def)
  have m: "''Monday'' \<in> set day_names" and t: "''Tuesday'' \<in> set day_names"
    by (simp_all add: day_names_def)
  from weekday_counts_in_fixed_order [OF g m] weekday_counts_in_fixed_order [OF g t]
  show ?thesis by auto
qed

text \<open>
  The claim as it was stated fails: with two trips on Monday, Tuesday does not get the
  count 0.
\<close>

theorem weekday_counts_zero_counterexample:
  "\<not> (\<exists>r. weekday_counts \<lparr>index = [0, 1], columns = [(''weekday'',
            StrCol [Some ''Monday'', Some ''Monday''])]\<rparr> = Inr r \<and>
          map_of r (Str ''Tuesday'') = Some (Some 0))"
proof -
  have "weekday_counts \<lparr>index = [0, 1], columns = [(''weekday'',
       StrCol [Some ''Monday'', Some ''Monday''])]\<rparr>
     = Inr [(Str ''Monday'', Some 2), (Str ''Tuesday'', None), (Str ''Wednesday'', None),
            (Str ''Thursday'', None), (Str ''Friday'', None), (Str ''Saturday'', None),
            (Str ''Sunday'', None)]"
    by code_simp
  then show ?thesis by simp
qed

subsection \<open>Groups of the statistical tests\<close>

lemma sequence_map_Inr:
  "(\<And>x. x \<in> set xs \<Longrightarrow> f x = Inr (g x)) \<Longrightarrow> sequence (map f xs) = Inr (map g xs)"
  by (induction xs) (simp_all add: and_then_def)

lemma count_list_as_filter: "count_list xs a = length (filter (\<lambda>x. x = a) xs)"
  by (induction xs) auto

lemma length_filter_id_map: "length (filter id (map P xs)) = length (filter P xs)"
  by (induction xs) simp_all

lemma col_len_col_select:
  "length ks = col_len c \<Longrightarrow> col_len (col_select ks c) = length (filter id ks)"
  by (cases c) (simp_all add: length_select_le)

lemma group_size:
  assumes "col_len vc = col_len kc"
  shows "col_len (col_select (eq_mask kc k) vc) = count_list (col_cells kc) (Some k)"
proof -
  have "col_len (col_select (eq_mask kc k) vc) = length (filter id (eq_mask kc k))"
    using assms by (intro col_len_col_select) simp
  also have "\<dots> = count_list (col_cells kc) (Some k)"
    by (simp add: eq_mask_def length_filter_id_map count_list_as_filter)
  finally show ?thesis .
qed

lemma grouped_column_value:
  assumes "getitem tdf key = Inr kc" and "getitem tdf val = Inr vc"
  shows "grouped_column key val tdf
           = Inr (map (\<lambda>k. col_select (eq_mask kc k) vc) (col_keys kc))"
proof -
  have "sequence (map (\<lambda>g. getitem g val) (map (\<lambda>k. take_rows (eq_mask kc k) tdf) (col_keys kc)))
      = Inr (map (\<lambda>k. col_select (eq_mask kc k) vc) (col_keys kc))"
    unfolding map_map o_def
    by (rule sequence_map_Inr) (simp add: getitem_take_rows assms(2))
  then show ?thesis
    by (simp add: grouped_column_def groupby_def and_then_def assms(1))
qed

text \<open>
  Claim C10. Every group that partitioning the \<^verbatim>\<open>total_amount\<close> values of the test
  subset by a category produces has at least one row: there is one group for each
  category value that occurs in the subset and for no other. So the guard's conjunct
  that all groups are non-empty always holds, and the test is admitted exactly when at
  least two distinct category values occur.
\<close>

theorem groups_are_never_empty:
  assumes "well_formed tdf"
    and "getitem tdf key = Inr kc"
    and "getitem tdf ''total_amount'' = Inr vc"
  shows "\<exists>gs. grouped_column key ''total_amount'' tdf = Inr gs \<and>
     list_all (\<lambda>g. 0 < col_len g) gs \<and>
     length gs = card {k. Some k \<in> set (col_cells kc)} \<and>
     anova_guard gs = (2 \<le> card {k. Some k \<in> set (col_cells kc)})"
proof -
  define gs where "gs = map (\<lambda>k. col_select (eq_mask kc k) vc) (col_keys kc)"
  have run: "grouped_column key ''total_amount'' tdf = Inr gs"
    unfolding gs_def by (rule grouped_column_value [OF assms(2,3)])
  have same: "col_len vc = col_len kc"
    using assms by (simp add: wf_getitem)
  have size: "0 < col_len (col_select (eq_mask kc k) vc)" if "k \<in> set (col_keys kc)" for k
  proof -
    from that have "Some k \<in> set (col_cells kc)" by (simp add: set_col_keys)
    then have "count_list (col_cells kc) (Some k) \<noteq> 0" by (simp add: count_list_0_iff)
    then show ?thesis by (simp add: group_size [OF same])
  qed
  then have nonempty: "list_all (\<lambda>g. 0 < col_len g) gs"
    by (simp add: gs_def list_all_iff)
  have "length gs = length (col_keys kc)" by (simp add: gs_def)
  also have "\<dots> = card (set (col_keys kc))"
    by (simp add: distinct_card distinct_col_keys)
  finally have count: "length gs = card {k. Some k \<in> set (col_cells kc)}"
    by (simp add: set_col_keys)
  have guard: "anova_guard gs = (2 \<le> card {k. Some k \<in> set (col_cells kc)})"
    using nonempty count by (simp add: anova_guard_def)
  from run nonempty count guard show ?thesis by blast
qed

theorem groups_are_never_empty_witness:
  "\<exists>gs. grouped_column ''weekday'' ''total_amount''
          \<lparr>index = [0, 1, 2],
             columns = [(''weekday'', StrCol [Some ''Monday'', Some ''Tuesday'', Some ''Monday'']),
                        (''total_amount'', NumCol [Some 10, Some 20, Some 30])]\<rparr> = Inr gs \<and>
     gs = [NumCol [Some 10, Some 30], NumCol [Some 20]] \<and>
     list_all (\<lambda>g. 0 < col_len g) gs \<and> anova_guard gs"
proof -
  let ?f = "\<lparr>index = [0, 1, 2],
      columns = [(''weekday'', StrCol [Some ''Monday'', Some ''Tuesday'', Some ''Monday'']),
                 (''total_amount'', NumCol [Some 10, Some 20, Some 30])]\<rparr>"
  have w: "well_formed ?f" by (simp add: well_formed_def len_def)
  have k: "getitem ?f ''weekday'' = Inr (StrCol [Some ''Monday'', Some ''Tuesday'', Some ''Monday''])"
    by (simp add: getitem_def)
  have v: "getitem ?f ''total_amount'' = Inr (NumCol [Some 10, Some 20, Some 30])"
    by (simp add: getitem_def)
  have e: "grouped_column ''weekday'' ''total_amount'' ?f
      = Inr [NumCol [Some 10, Some 30], NumCol [Some 20]]"
    by code_simp
  from groups_are_never_empty [OF w k v] obtain gs where
    g: "grouped_column ''weekday'' ''total_amount'' ?f = Inr gs"
      "list_all (\<lambda>g. 0 < col_len g) gs"
    by blast
  from g(1) e have "gs = [NumCol [Some 10, Some 30], NumCol [Some 20]]" by simp
  with g show ?thesis by (simp add: anova_guard_def)
qed

subsection \<open>One-way ANOVA\<close>

text \<open>
  What each of the three tests shows, given the groups: the statistics when the guard
  holds (\<^verbatim>\<open>f_oneway\<close> then has its two samples and does not raise), a warning
  otherwise. By the groups' properties above the guard holds exactly when at least two
  category values occur in the test subset.
\<close>

lemma f_oneway_guarded: "anova_guard gs \<Longrightarrow> f_oneway fo gs = Inr (fo gs)"
  by (simp add: anova_guard_def f_oneway_def)

lemma anova_trip_type_result:
  assumes "has_column tdf ''trip_type_name''"
    and "grouped_column ''trip_type_name'' ''total_amount'' tdf = Inr gs"
  shows "anova_trip_type fo tdf =
     Inr [if anova_guard gs
          then Markdown (anova_lines ''Total Amount by Trip Type'' ''trip types''
                 (fst (fo gs)) (snd (fo gs)))
          else Warning
            ''Cannot perform ANOVA test on trip types - need at least 2 groups with data'']"
  using assms
  by (simp add: anova_trip_type_def and_then_def f_oneway_guarded case_prod_beta)

lemma anova_weekday_result:
  assumes "grouped_column ''weekday'' ''total_amount'' tdf = Inr gs"
  shows "anova_weekday fo tdf =
     Inr [if anova_guard gs
          then Markdown (anova_lines ''Total Amount by Weekday'' ''weekdays''
                 (fst (fo gs)) (snd (fo gs)))
          else Warning
            (''Cannot perform ANOVA test on weekdays - need at least 2 weekdays with data (found ''
             @ digits (length gs) @ '')'')]"
  using assms
  by (simp add: anova_weekday_def and_then_def f_oneway_guarded case_prod_beta)

lemma anova_week_result:
  assumes "grouped_column ''week_name'' ''total_amount'' tdf = Inr gs"
  shows "anova_week fo tdf =
     Inr [if anova_guard gs
          then Markdown (anova_lines ''Total Amount by Week of Month'' ''weeks of the month''
                 (fst (fo gs)) (snd (fo gs)))
          else Warning
            (''Cannot perform ANOVA test on weeks - need at least 2 weeks with data (found ''
             @ digits (length gs) @ '')'')]"
  using assms
  by (simp add: anova_week_def and_then_def f_oneway_guarded case_prod_beta)

text \<open>
  Claim C5. When fewer than two groups exist, each test shows a warning and no
  statistic, and the warning is to carry the number of groups found. The tests by
  weekday and by week of the month do so (\<^verbatim>\<open>(found 1)\<close>, lines 360 and 374); the test
  by trip type, line 346, shows a warning with no number in it. Here the loaded example
  is restricted to the trips paid in cash: one trip, hence one group in each of the
  three partitions.
\<close>

theorem anova_trip_type_warning_without_count:
  "and_then (load_data example_raw) (\<lambda>df.
   and_then (test_df \<lparr>test_weekday = ''All'', test_payment = ''Cash'', test_week = ''All''\<rparr> df) (\<lambda>tdf.
   and_then (anova_trip_type fo tdf) (\<lambda>a.
   and_then (anova_weekday fo tdf) (\<lambda>b.
   and_then (anova_week fo tdf) (\<lambda>c. Inr (a, b, c))))))
   = Inr ([Warning ''Cannot perform ANOVA test on trip types - need at least 2 groups with data''],
          [Warning ''Cannot perform ANOVA test on weekdays - need at least 2 weekdays with data (found 1)''],
          [Warning ''Cannot perform ANOVA test on weeks - need at least 2 weeks with data (found 1)''])"
  by code_simp

subsection \<open>Chi-square test of independence\<close>

text \<open>
  The table of \<^verbatim>\<open>crosstab\<close> counts the rows where both cells are present, so each of
  its rows and each of its columns holds at least one trip: the expected frequencies are
  all positive and \<^verbatim>\<open>chi2_contingency\<close> does not raise.
\<close>

lemma select_zip:
  "length ks = length xs \<Longrightarrow> length xs = length ys \<Longrightarrow>
   select ks (zip xs ys) = zip (select ks xs) (select ks ys)"
  by (induction ks xs ys rule: list_induct3) (simp_all add: select_def)

lemma select_by_test: "select (map P zs) zs = filter P zs"
  by (induction zs) (simp_all add: select_def)

lemma sum_list_map_pos:
  fixes f :: "'a \<Rightarrow> nat"
  assumes "x \<in> set l" and "0 < f x"
  shows "0 < sum_list (map f l)"
  using assms by (induction l) auto

lemma count_list_pos: "x \<in> set l \<Longrightarrow> 0 < count_list l x"
  using count_list_0_iff [of l x] by auto

lemma table_rows_positive:
  fixes us vs :: "cell option list"
  assumes len: "length us = length vs"
    and pres: "\<And>x y. (x, y) \<in> set (zip us vs) \<Longrightarrow> x \<noteq> None \<and> y \<noteq> None"
    and ka: "set ka = {k. Some k \<in> set us}"
    and kb: "set kb = {k. Some k \<in> set vs}"
    and r: "r \<in> set ka"
  shows "0 < sum_list (map (\<lambda>c. count_list (zip us vs) (Some r, Some c)) kb)"
proof -
  from r ka have "Some r \<in> set us" by simp
  then obtain i where i: "i < length us" "us ! i = Some r" by (auto simp: in_set_conv_nth)
  then have mem: "(Some r, vs ! i) \<in> set (zip us vs)"
    using len by (metis in_set_zip fst_conv snd_conv)
  from pres [OF mem] obtain c where c: "vs ! i = Some c" by auto
  have "Some c \<in> set vs" using i(1) len c by (metis nth_mem)
  then have "c \<in> set kb" using kb by simp
  moreover have "0 < count_list (zip us vs) (Some r, Some c)"
    using mem c by (simp add: count_list_pos)
  ultimately show ?thesis by (rule sum_list_map_pos)
qed

lemma table_cols_positive:
  fixes us vs :: "cell option list"
  assumes len: "length us = length vs"
    and pres: "\<And>x y. (x, y) \<in> set (zip us vs) \<Longrightarrow> x \<noteq> None \<and> y \<noteq> None"
    and ka: "set ka = {k. Some k \<in> set us}"
    and kb: "set kb = {k. Some k \<in> set vs}"
    and c: "c \<in> set kb"
  shows "0 < sum_list (map (\<lambda>r. count_list (zip us vs) (Some r, Some c)) ka)"
proof -
  from c kb have "Some c \<in> set vs" by simp
  then obtain i where i: "i < length vs" "vs ! i = Some c" by (auto simp: in_set_conv_nth)
  then have mem: "(us ! i, Some c) \<in> set (zip us vs)"
    using len by (metis in_set_zip fst_conv snd_conv)
  from pres [OF mem] obtain r where r: "us ! i = Some r" by auto
  have "Some r \<in> set us" using i(1) len r by (metis nth_mem)
  then have "r \<in> set ka" using ka by simp
  moreover have "0 < count_list (zip us vs) (Some r, Some c)"
    using mem r by (simp add: count_list_pos)
  ultimately show ?thesis by (rule sum_list_map_pos)
qed


lemma fst_shape: "fst (shape t) = length t"
  by (simp add: shape_def)

lemma snd_shape_map:
  "ka \<noteq> [] \<Longrightarrow> snd (shape (map (\<lambda>r. map (g r) kb) ka)) = length kb"
  by (cases ka) (simp_all add: shape_def)

lemma in_expected_freq:
  assumes "e \<in> set (concat (expected_freq obs))"
  shows "\<exists>row j. row \<in> set obs \<and> j < snd (shape obs) \<and>
     e = real (sum_list row) * real (sum_list (map (\<lambda>r. r ! j) obs))
           / real (sum_list (map sum_list obs))"
proof -
  from assms obtain xs where xs: "xs \<in> set (expected_freq obs)" and e: "e \<in> set xs"
    by auto
  from xs obtain row where row: "row \<in> set obs"
    and xs_eq: "xs = map (\<lambda>c. real (sum_list row) * real c
                  / real (sum_list (map sum_list obs)))
                (map (\<lambda>j. sum_list (map (\<lambda>r. r ! j) obs)) [0..<snd (shape obs)])"
    unfolding expected_freq_def Let_def by auto
  from e obtain j where "j < snd (shape obs)"
    and "e = real (sum_list row) * real (sum_list (map (\<lambda>r. r ! j) obs))
           / real (sum_list (map sum_list obs))"
    unfolding xs_eq by auto
  with row show ?thesis by blast
qed

lemma expected_nonzero:
  assumes ne: "obs \<noteq> []"
    and rows: "\<And>row. row \<in> set obs \<Longrightarrow> 0 < sum_list row"
    and cols: "\<And>j. j < snd (shape obs) \<Longrightarrow> 0 < sum_list (map (\<lambda>r. r ! j) obs)"
  shows "\<not> list_ex (\<lambda>e. e = 0) (concat (expected_freq obs))"
proof
  assume "list_ex (\<lambda>e. e = 0) (concat (expected_freq obs))"
  then have "0 \<in> set (concat (expected_freq obs))"
    unfolding list_ex_iff by blast
  from in_expected_freq [OF this] obtain row j where row: "row \<in> set obs"
    and j: "j < snd (shape obs)"
    and z: "0 = real (sum_list row) * real (sum_list (map (\<lambda>r. r ! j) obs))
           / real (sum_list (map sum_list obs))"
    by blast
  define R where "R = sum_list row"
  define C where "C = sum_list (map (\<lambda>r. r ! j) obs)"
  define T where "T = sum_list (map sum_list obs)"
  have "0 < R" unfolding R_def by (rule rows [OF row])
  moreover have "0 < C" unfolding C_def by (rule cols [OF j])
  moreover have "0 < T" unfolding T_def using row rows [OF row] by (rule sum_list_map_pos)
  moreover have "0 = real R * real C / real T" using z by (simp only: R_def C_def T_def)
  ultimately show False by simp
qed


lemma has_column_getitem: "getitem df name = Inr c \<Longrightarrow> has_column df name"
  by (auto simp: getitem_def has_column_def split: option.splits dest: map_of_SomeD
        intro: rev_image_eqI)

lemma crosstab_expected:
  assumes same: "col_len a = col_len b" and ne: "crosstab a b \<noteq> []"
  shows "\<not> list_ex (\<lambda>e. e = 0) (concat (expected_freq (crosstab a b)))"
proof -
  define P where "P = (\<lambda>(x :: cell option, y :: cell option). x \<noteq> None \<and> y \<noteq> None)"
  define both where "both = map P (zip (col_cells a) (col_cells b))"
  define us where "us = col_cells (col_select both a)"
  define vs where "vs = col_cells (col_select both b)"
  define ka where "ka = col_keys (col_select both a)"
  define kb where "kb = col_keys (col_select both b)"
  define obs where
    "obs = map (\<lambda>r. map (\<lambda>c. count_list (zip us vs) (Some r, Some c)) kb) ka"
  have obs: "crosstab a b = obs"
    by (simp add: crosstab_def Let_def obs_def us_def vs_def ka_def kb_def both_def P_def)
  have lb: "length both = length (col_cells a)" "length (col_cells a) = length (col_cells b)"
    using same by (simp_all add: both_def)
  have pairs: "zip us vs = filter P (zip (col_cells a) (col_cells b))"
    unfolding us_def vs_def col_cells_select
    using select_zip [OF lb] by (simp add: both_def select_by_test)
  have len: "length us = length vs"
    unfolding us_def vs_def col_cells_select using lb by (simp add: length_select_le)
  have pres: "x \<noteq> None \<and> y \<noteq> None" if "(x, y) \<in> set (zip us vs)" for x y
    using that unfolding pairs by (simp add: P_def)
  have sa: "set ka = {k. Some k \<in> set us}" by (simp add: ka_def us_def set_col_keys)
  have sb: "set kb = {k. Some k \<in> set vs}" by (simp add: kb_def vs_def set_col_keys)
  have kane: "ka \<noteq> []" using ne obs by (simp add: obs_def)
  have rows: "0 < sum_list row" if "row \<in> set obs" for row
  proof -
    from that obtain r where "r \<in> set ka"
      and "row = map (\<lambda>c. count_list (zip us vs) (Some r, Some c)) kb"
      by (auto simp: obs_def)
    then show ?thesis using table_rows_positive [OF len pres sa sb] by simp
  qed
  have cols: "0 < sum_list (map (\<lambda>r. r ! j) obs)" if "j < snd (shape obs)" for j
  proof -
    from that kane have j: "j < length kb" by (simp add: obs_def snd_shape_map)
    then have "map (\<lambda>r. r ! j) obs
        = map (\<lambda>r. count_list (zip us vs) (Some r, Some (kb ! j))) ka"
      by (simp add: obs_def o_def)
    moreover have "kb ! j \<in> set kb" using j by simp
    ultimately show ?thesis using table_cols_positive [OF len pres sa sb] by simp
  qed
  have one: "obs \<noteq> []" using kane by (simp add: obs_def)
  show ?thesis unfolding obs by (rule expected_nonzero [OF one rows cols])
qed

lemma chi2_contingency_crosstab:
  assumes same: "col_len a = col_len b"
    and guard: "2 \<le> fst (shape (crosstab a b))" "2 \<le> snd (shape (crosstab a b))"
  shows "\<exists>stat. chi2_contingency sf (crosstab a b)
     = Inr (Finite stat,
            Finite (sf stat ((fst (shape (crosstab a b)) - 1) * (snd (shape (crosstab a b)) - 1))))"
proof -
  define t where "t = crosstab a b"
  from guard(1) have ne: "t \<noteq> []" by (auto simp: t_def fst_shape)
  then obtain r rest where t: "t = r # rest" by (cases t) auto
  with guard(2) have "r \<noteq> []" by (auto simp: t_def shape_def)
  then have c: "concat t \<noteq> []" by (simp add: t)
  have e: "\<not> list_ex (\<lambda>e. e = 0) (concat (expected_freq t))"
    unfolding t_def using same ne [unfolded t_def] by (rule crosstab_expected)
  have d: "(fst (shape t) - 1) * (snd (shape t) - 1) \<noteq> 0"
    using guard by (simp add: t_def)
  show ?thesis
    unfolding t_def [symmetric] using c e d
    by (simp add: chi2_contingency_def Let_def)
qed

text \<open>
  Claim C6. For every test subset that has the column \<^verbatim>\<open>trip_type_name\<close>, the
  chi-square test shows a statistic and a p-value, computed without an error from the
  table of trip type by payment type with \<open>(rows - 1) * (columns - 1)\<close> degrees of
  freedom, exactly when the table has at least two rows and at least two columns.
  Otherwise, and so for a table of one row or of one column, it shows a warning that
  gives the shape of the table, and no statistic.
\<close>

theorem chi_square_needs_two_by_two:
  assumes "well_formed tdf"
    and "getitem tdf ''trip_type_name'' = Inr a"
    and "getitem tdf ''payment_type_name'' = Inr b"
  shows "if 2 \<le> fst (shape (crosstab a b)) \<and> 2 \<le> snd (shape (crosstab a b))
     then \<exists>stat p. chi2_contingency sf (crosstab a b) = Inr (Finite stat, Finite p) \<and>
       p = sf stat ((fst (shape (crosstab a b)) - 1) * (snd (shape (crosstab a b)) - 1)) \<and>
       chi_square_test sf tdf =
         Inr [Markdown
                [''**Trip Type vs Payment Type**'',
                 ''- Chi-square statistic: '' @ format_float 2 (Finite stat),
                 ''- p-value: '' @ format_float 4 (Finite p),
                 ''- '' @ (if p < 5 / 100 then ''Significant association''
                           else ''No significant association'')
                   @ '' between trip type and payment type''],
              Table (crosstab a b)]
     else chi_square_test sf tdf =
         Inr [Warning
           (''Cannot perform chi-square test - need at least 2 categories in both dimensions (current shape: ''
            @ format_shape (shape (crosstab a b)) @ '')'')]"
proof (cases "2 \<le> fst (shape (crosstab a b)) \<and> 2 \<le> snd (shape (crosstab a b))")
  case True
  have same: "col_len a = col_len b" using assms by (simp add: wf_getitem)
  from True chi2_contingency_crosstab [OF same, of sf] obtain stat where
    st: "chi2_contingency sf (crosstab a b)
       = Inr (Finite stat,
            Finite (sf stat ((fst (shape (crosstab a b)) - 1) * (snd (shape (crosstab a b)) - 1))))"
    by blast
  have "chi_square_test sf tdf =
         Inr [Markdown
                [''**Trip Type vs Payment Type**'',
                 ''- Chi-square statistic: '' @ format_float 2 (Finite stat),
                 ''- p-value: '' @ format_float 4 (Finite (sf stat ((fst (shape (crosstab a b)) - 1) * (snd (shape (crosstab a b)) - 1)))),
                 ''- '' @ (if sf stat ((fst (shape (crosstab a b)) - 1) * (snd (shape (crosstab a b)) - 1)) < 5 / 100 then ''Significant association''
                           else ''No significant association'')
                   @ '' between trip type and payment type''],
              Table (crosstab a b)]"
    using True assms(2,3) has_column_getitem [OF assms(2)]
    by (simp add: chi_square_test_def and_then_def Let_def st significant_def)
  with st True show ?thesis by simp
next
  case False
  then have no: "(2 \<le> fst (shape (crosstab a b)) \<and> 2 \<le> snd (shape (crosstab a b))) = False"
    by blast
  have "chi_square_test sf tdf =
         Inr [Warning
           (''Cannot perform chi-square test - need at least 2 categories in both dimensions (current shape: ''
            @ format_shape (shape (crosstab a b)) @ '')'')]"
    using assms(2,3) has_column_getitem [OF assms(2)]
    by (simp add: chi_square_test_def and_then_def Let_def no)
  then show ?thesis by (simp only: no if_False)
qed


theorem chi_square_needs_two_by_two_witness:
  "\<forall>sf.
     (\<exists>stat p. chi2_contingency sf [[1, 1], [1, 1]] = Inr (Finite stat, Finite p) \<and>
        p = sf stat 1 \<and>
        chi_square_test sf example_two_by_two =
          Inr [Markdown
                 [''**Trip Type vs Payment Type**'',
                  ''- Chi-square statistic: '' @ format_float 2 (Finite stat),
                  ''- p-value: '' @ format_float 4 (Finite p),
                  ''- '' @ (if p < 5 / 100 then ''Significant association''
                            else ''No significant association'')
                    @ '' between trip type and payment type''],
               Table [[1, 1], [1, 1]]]) \<and>
     chi_square_test sf example_one_trip_type =
       Inr [Warning
         ''Cannot perform chi-square test - need at least 2 categories in both dimensions (current shape: (1, 2))'']"
proof (intro allI conjI)
  fix sf :: "real \<Rightarrow> nat \<Rightarrow> real"
  have w: "well_formed example_two_by_two"
    by (simp add: example_two_by_two_def well_formed_def len_def)
  have a: "getitem example_two_by_two ''trip_type_name''
      = Inr (StrCol [Some ''Street-hail'', Some ''Dispatch'', Some ''Street-hail'',
                     Some ''Dispatch''])"
    by (simp add: example_two_by_two_def getitem_def)
  have b: "getitem example_two_by_two ''payment_type_name''
      = Inr (StrCol [Some ''Cash'', Some ''Cash'', Some ''Credit Card'',
                     Some ''Credit Card''])"
    by (simp add: example_two_by_two_def getitem_def)
  have t: "crosstab (StrCol [Some ''Street-hail'', Some ''Dispatch'', Some ''Street-hail'',
                             Some ''Dispatch''])
             (StrCol [Some ''Cash'', Some ''Cash'', Some ''Credit Card'',
                      Some ''Credit Card'']) = [[1, 1], [1, 1]]"
    by code_simp
  from chi_square_needs_two_by_two [OF w a b, of sf]
  show "\<exists>stat p. chi2_contingency sf [[1, 1], [1, 1]] = Inr (Finite stat, Finite p) \<and>
        p = sf stat 1 \<and>
        chi_square_test sf example_two_by_two =
          Inr [Markdown
                 [''**Trip Type vs Payment Type**'',
                  ''- Chi-square statistic: '' @ format_float 2 (Finite stat),
                  ''- p-value: '' @ format_float 4 (Finite p),
                  ''- '' @ (if p < 5 / 100 then ''Significant association''
                            else ''No significant association'')
                    @ '' between trip type and payment type''],
               Table [[1, 1], [1, 1]]]"
    unfolding t by (simp add: shape_def)
next
  fix sf :: "real \<Rightarrow> nat \<Rightarrow> real"
  have w: "well_formed example_one_trip_type"
    by (simp add: example_one_trip_type_def well_formed_def len_def)
  have a: "getitem example_one_trip_type ''trip_type_name''
      = Inr (StrCol [Some ''Street-hail'', Some ''Street-hail''])"
    by (simp add: example_one_trip_type_def getitem_def)
  have b: "getitem example_one_trip_type ''payment_type_name''
      = Inr (StrCol [Some ''Cash'', Some ''Credit Card''])"
    by (simp add: example_one_trip_type_def getitem_def)
  have t: "crosstab (StrCol [Some ''Street-hail'', Some ''Street-hail''])
             (StrCol [Some ''Cash'', Some ''Credit Card'']) = [[1, 1]]"
    by code_simp
  have sh: "shape [[1, 1 :: nat]] = (1, 2)" by (simp add: shape_def)
  have f: "format_shape (1, 2) = ''(1, 2)''" by code_simp
  from chi_square_needs_two_by_two [OF w a b, of sf, unfolded t sh f]
  show "chi_square_test sf example_one_trip_type =
       Inr [Warning
         ''Cannot perform chi-square test - need at least 2 categories in both dimensions (current shape: (1, 2))'']"
    by simp
qed

subsection \<open>The sample for the scatter plot\<close>

lemma length_choice: "length (choice rnd k pool) = k"
  by (induction k arbitrary: pool) (simp_all add: Let_def)

lemma remove_nth_props:
  assumes "j < length pool" "distinct pool"
  shows "distinct (take j pool @ drop (Suc j) pool)"
    and "pool ! j \<notin> set (take j pool @ drop (Suc j) pool)"
    and "set (take j pool @ drop (Suc j) pool) \<subseteq> set pool"
    and "length (take j pool @ drop (Suc j) pool) = length pool - 1"
proof -
  have split: "pool = take j pool @ pool ! j # drop (Suc j) pool"
    using assms(1) by (rule id_take_nth_drop)
  have d: "distinct (take j pool @ pool ! j # drop (Suc j) pool)"
    using assms(2) split by simp
  from d show "distinct (take j pool @ drop (Suc j) pool)" by auto
  from d show "pool ! j \<notin> set (take j pool @ drop (Suc j) pool)" by auto
  show "set (take j pool @ drop (Suc j) pool) \<subseteq> set pool"
    using set_take_subset [of j pool] set_drop_subset [of "Suc j" pool] by auto
  show "length (take j pool @ drop (Suc j) pool) = length pool - 1"
    using assms(1) by simp
qed

lemma choice_distinct:
  "k \<le> length pool \<Longrightarrow> distinct pool \<Longrightarrow>
     distinct (choice rnd k pool) \<and> set (choice rnd k pool) \<subseteq> set pool"
proof (induction k arbitrary: pool)
  case 0
  then show ?case by simp
next
  case (Suc k)
  define j where "j = rnd k mod length pool"
  define rest where "rest = take j pool @ drop (Suc j) pool"
  from Suc.prems(1) have pos: "0 < length pool" by (cases pool) simp_all
  then have j: "j < length pool" by (simp add: j_def)
  note r = remove_nth_props [OF j Suc.prems(2), folded rest_def]
  have "k \<le> length rest" using r(4) Suc.prems(1) by simp
  from Suc.IH [OF this r(1)]
  have ih: "distinct (choice rnd k rest)" "set (choice rnd k rest) \<subseteq> set rest" by simp_all
  have eq: "choice rnd (Suc k) pool = pool ! j # choice rnd k rest"
    by (simp add: Let_def j_def rest_def)
  have "pool ! j \<in> set pool" using j by simp
  with ih r(2) r(3) show ?case unfolding eq by auto
qed

lemma len_rows_at: "len (rows_at ps df) = length ps"
  by (simp add: len_def rows_at_def)

text \<open>
  Claim C9. For every filtered subset, the empty one included, the sample for the scatter
  plot is requested with \<open>min 1000 n\<close> rows, \<open>n\<close> the number of rows of the subset: the
  request never exceeds the population, so \<^verbatim>\<open>sample\<close> never takes its ValueError
  branch, and the result has exactly \<open>min 1000 n\<close> rows, each a different row of the
  subset.
\<close>

theorem sample_df_never_fails:
  "\<exists>ps. sample_df rnd fdf = Inr (rows_at ps fdf)
        \<and> len (rows_at ps fdf) = min 1000 (len fdf)
        \<and> min 1000 (len fdf) \<le> len fdf
        \<and> distinct ps \<and> set ps \<subseteq> set [0..<len fdf]"
proof -
  define n where "n = min 1000 (len fdf)"
  define ps where "ps = choice rnd n [0..<len fdf]"
  have le: "n \<le> len fdf" by (simp add: n_def)
  then have run: "sample_df rnd fdf = Inr (rows_at ps fdf)"
    by (simp add: sample_df_def sample_def n_def ps_def)
  have size: "len (rows_at ps fdf) = n"
    by (simp add: len_rows_at ps_def length_choice)
  have "n \<le> length [0..<len fdf]" using le by simp
  from choice_distinct [OF this distinct_upt, of rnd]
  have "distinct ps" "set ps \<subseteq> set [0..<len fdf]" by (simp_all add: ps_def)
  with run size le show ?thesis unfolding n_def by blast
qed

end
